theory Spec2Isabelle
  imports Complex_Main
begin

section \<open>Python values used by the payment views\<close>

text \<open>
  The payment flow of \<^verbatim>\<open>listings/views.py\<close> (\<^verbatim>\<open>initiate_chapa_payment\<close> and
  \<^verbatim>\<open>verify_chapa_payment\<close>) is embedded as state-passing functions over the
  rows of \<^verbatim>\<open>listings/models.py\<close>. Every \<^verbatim>\<open>raise\<close> of the source is a value of
  type \<open>exn\<close>, and each \<^verbatim>\<open>try\<close> block is a function that returns the exception or
  the response together with the local variable \<^verbatim>\<open>payment\<close> and the database, which
  the \<^verbatim>\<open>except\<close> clauses then inspect, as the source does with \<^verbatim>\<open>locals()\<close>.
\<close>

datatype json =
    JNull
  | JBool bool
  | JInt int
  | JFloat string
  | JString string
  | JArray "json list"
  | JObject "(string \<times> json) list"

text \<open>
  A decoded JSON document. \<open>JObject\<close> lists the items of the Python dict (keys
  distinct); \<open>JFloat\<close> carries the text that Python prints for the number.
\<close>

datatype exn_class =
    Http404
  | Payment_DoesNotExist
  | Booking_DoesNotExist
  | MultipleObjectsReturned
  | IntegrityError
  | ValidationError
  | ValueError
  | KeyError
  | AttributeError
  | TypeError
  | JSONDecodeError
  | RequestException
  | Requests_JSONDecodeError
  | OperationalError

datatype exn = Exn (exn_class: exn_class) (exn_str: string)

text \<open>
  \<open>Requests_JSONDecodeError\<close> is \<^verbatim>\<open>requests.exceptions.JSONDecodeError\<close>, which inherits
  from both \<^verbatim>\<open>requests.exceptions.RequestException\<close> and \<^verbatim>\<open>json.JSONDecodeError\<close>.
  \<open>Http404\<close> is \<^verbatim>\<open>django.http.Http404\<close>, a direct subclass of \<^verbatim>\<open>Exception\<close>.
\<close>

definition is_JSONDecodeError :: "exn \<Rightarrow> bool" where
  "is_JSONDecodeError e =
     (exn_class e = JSONDecodeError \<or> exn_class e = Requests_JSONDecodeError)"

definition is_RequestException :: "exn \<Rightarrow> bool" where
  "is_RequestException e =
     (exn_class e = RequestException \<or> exn_class e = Requests_JSONDecodeError)"

definition is_Payment_DoesNotExist :: "exn \<Rightarrow> bool" where
  "is_Payment_DoesNotExist e = (exn_class e = Payment_DoesNotExist)"

definition is_Booking_DoesNotExist :: "exn \<Rightarrow> bool" where
  "is_Booking_DoesNotExist e = (exn_class e = Booking_DoesNotExist)"

definition quote :: "string \<Rightarrow> string" where
  "quote s = CHR 0x27 # s @ [CHR 0x27]"

fun show_nat :: "nat \<Rightarrow> string" where
  "show_nat n =
     (if n < 10 then [''0123456789'' ! n]
      else show_nat (n div 10) @ [''0123456789'' ! (n mod 10)])"

declare show_nat.simps [simp del]

definition show_int :: "int \<Rightarrow> string" where
  "show_int i = (if i < 0 then ''-'' @ show_nat (nat (- i)) else show_nat (nat i))"

fun intercalate :: "string \<Rightarrow> string list \<Rightarrow> string" where
  "intercalate sep [] = []"
| "intercalate sep [x] = x"
| "intercalate sep (x # y # ys) = x @ sep @ intercalate sep (y # ys)"

primrec py_repr :: "json \<Rightarrow> string" where
  "py_repr JNull = ''None''"
| "py_repr (JBool b) = (if b then ''True'' else ''False'')"
| "py_repr (JInt i) = show_int i"
| "py_repr (JFloat t) = t"
| "py_repr (JString s) = quote s"
| "py_repr (JArray xs) = ''['' @ intercalate '', '' (map py_repr xs) @ '']''"
| "py_repr (JObject kvs) =
     ''{'' @ intercalate '', ''
        (map (\<lambda>kv. quote (fst kv) @ '': '' @ snd kv) (map (map_prod id py_repr) kvs)) @ ''}''"

text \<open>
  \<^verbatim>\<open>str(v)\<close> and \<^verbatim>\<open>repr(v)\<close> of a decoded JSON value; text is printed between single
  quotes, as Python does for text without quotes, backslashes or control characters.
\<close>

definition py_str :: "json \<Rightarrow> string" where
  "py_str v = (case v of JString s \<Rightarrow> s | _ \<Rightarrow> py_repr v)"

definition py_type_name :: "json \<Rightarrow> string" where
  "py_type_name v =
     (case v of JNull \<Rightarrow> ''NoneType'' | JBool _ \<Rightarrow> ''bool'' | JInt _ \<Rightarrow> ''int''
      | JFloat _ \<Rightarrow> ''float'' | JString _ \<Rightarrow> ''str'' | JArray _ \<Rightarrow> ''list''
      | JObject _ \<Rightarrow> ''dict'')"

definition no_attribute_get :: "json \<Rightarrow> exn" where
  "no_attribute_get v =
     Exn AttributeError (quote (py_type_name v) @ '' object has no attribute '' @ quote ''get'')"

text \<open>\<^verbatim>\<open>v.get(key)\<close>: \<open>None\<close> of the option is Python's \<^verbatim>\<open>None\<close> for a missing key.\<close>

definition py_get :: "json \<Rightarrow> string \<Rightarrow> exn + json option" where
  "py_get v key =
     (case v of JObject kvs \<Rightarrow> Inr (map_of kvs key) | _ \<Rightarrow> Inl (no_attribute_get v))"

text \<open>\<^verbatim>\<open>v.get(key, default)\<close>.\<close>

definition py_get_default :: "json \<Rightarrow> string \<Rightarrow> json \<Rightarrow> exn + json" where
  "py_get_default v key dflt =
     (case v of
        JObject kvs \<Rightarrow> Inr (case map_of kvs key of None \<Rightarrow> dflt | Some x \<Rightarrow> x)
      | _ \<Rightarrow> Inl (no_attribute_get v))"

text \<open>\<^verbatim>\<open>v[key]\<close> with a text key.\<close>

definition py_getitem :: "json \<Rightarrow> string \<Rightarrow> exn + json" where
  "py_getitem v key =
     (case v of
        JObject kvs \<Rightarrow>
          (case map_of kvs key of None \<Rightarrow> Inl (Exn KeyError (quote key)) | Some x \<Rightarrow> Inr x)
      | JString _ \<Rightarrow>
          Inl (Exn TypeError (''string indices must be integers, not '' @ quote ''str''))
      | JArray _ \<Rightarrow> Inl (Exn TypeError ''list indices must be integers or slices, not str'')
      | _ \<Rightarrow> Inl (Exn TypeError (quote (py_type_name v) @ '' object is not subscriptable'')))"

text \<open>
  What Django's \<^verbatim>\<open>CharField\<close> stores for a value assigned to it: \<^verbatim>\<open>None\<close> stays
  \<^verbatim>\<open>NULL\<close>, anything else is stored as its \<^verbatim>\<open>str\<close>.
\<close>

definition charfield :: "json \<Rightarrow> string option" where
  "charfield v = (case v of JNull \<Rightarrow> None | _ \<Rightarrow> Some (py_str v))"

section \<open>Data model (listings/models.py)\<close>

datatype uuid = UUID (hex: string)

text \<open>\<^verbatim>\<open>str(u)\<close> of a UUID given by its 32 hexadecimal digits.\<close>

definition uuid_str :: "uuid \<Rightarrow> string" where
  "uuid_str u =
     (let h = hex u in
      take 8 h @ ''-'' @ take 4 (drop 8 h) @ ''-'' @ take 4 (drop 12 h) @ ''-'' @
      take 4 (drop 16 h) @ ''-'' @ drop 20 h)"

text \<open>
  A \<^verbatim>\<open>DecimalField(max_digits=10, decimal_places=2)\<close> value, counted in hundredths.
\<close>

type_synonym decimal = int

definition decimal_str :: "decimal \<Rightarrow> string" where
  "decimal_str d =
     (let n = nat \<bar>d\<bar> in
      (if d < 0 then ''-'' else '''') @ show_nat (n div 100) @ ''.'' @
      show_nat (n mod 100 div 10) @ show_nat (n mod 10))"

text \<open>
  \<^verbatim>\<open>float(x)\<close> of such a value. Two decimals and at most ten digits are far below
  the precision of a double, so the conversion is one-to-one on these values and
  is modelled by the exact quotient.
\<close>

definition py_float :: "decimal \<Rightarrow> rat" where
  "py_float d = of_int d / 100"

record User =
  user_id :: uuid
  email :: string
  first_name :: string
  last_name :: string

datatype BookingStatusChoices = Booking_PENDING | Booking_CONFIRMED | Booking_CANCELED

text \<open>
  A \<^verbatim>\<open>Booking\<close> row with the columns the payment flow reads; \<open>user\<close> is the
  resolved foreign key, \<open>booking_status\<close> the column \<^verbatim>\<open>status\<close>.
\<close>

record Booking =
  booking_id :: uuid
  user :: User
  total_price :: decimal
  booking_status :: BookingStatusChoices

datatype ChapaPaymentStatusChoices = PENDING | COMPLETED | FAILED | CANCELED | REVERSED

definition status_value :: "ChapaPaymentStatusChoices \<Rightarrow> string" where
  "status_value st =
     (case st of PENDING \<Rightarrow> ''PENDING'' | COMPLETED \<Rightarrow> ''COMPLETED'' | FAILED \<Rightarrow> ''FAILED''
      | CANCELED \<Rightarrow> ''CANCELLED'' | REVERSED \<Rightarrow> ''REVERSED'')"

definition lower_char :: "char \<Rightarrow> char" where
  "lower_char c =
     (case map_of (zip ''ABCDEFGHIJKLMNOPQRSTUVWXYZ'' ''abcdefghijklmnopqrstuvwxyz'') c of
        None \<Rightarrow> c | Some d \<Rightarrow> d)"

definition lower :: "string \<Rightarrow> string" where
  "lower s = map lower_char s"

datatype PaymentMethodChoices = CHAPA | CREDIT_CARD | PAYPAL | STRIPE

text \<open>
  A \<^verbatim>\<open>Payment\<close> row; \<open>booking\<close> is the foreign-key column (the booking's
  identifier), \<open>chapa_transaction_id\<close> and \<open>chapa_status_text\<close> are nullable.
\<close>

record Payment =
  payment_id :: uuid
  booking :: uuid
  amount :: decimal
  chapa_transaction_id :: "string option"
  status :: ChapaPaymentStatusChoices
  chapa_status_text :: "string option"
  payment_method :: PaymentMethodChoices

section \<open>The world: database, gateway and task queue\<close>

record payload =
  payload_amount :: string
  payload_currency :: string
  payload_email :: string
  payload_first_name :: string
  payload_last_name :: string
  payload_tx_ref :: string
  payload_callback_url :: string
  payload_return_url :: string
  payload_title :: string
  payload_description :: string

datatype gateway_call = Initiate_call payload | Verify_call string

text \<open>
  A task accepted by \<^verbatim>\<open>send_payment_confirmation_email.delay\<close>: payment
  identifier, recipient, amount and booking reference.
\<close>

datatype job = Send_payment_confirmation_email string string decimal string

record db =
  bookings :: "Booking list"
  payments :: "Payment list"
  gateway_calls :: "gateway_call list"
  jobs :: "job list"

text \<open>
  What one call of the gateway gives back: \<^verbatim>\<open>requests.post\<close>, \<^verbatim>\<open>requests.get\<close>
  or \<^verbatim>\<open>raise_for_status\<close> raise a \<^verbatim>\<open>RequestException\<close> (with its text), or
  \<^verbatim>\<open>.json()\<close> fails to decode the body, or the decoded body is returned.
\<close>

datatype gateway_outcome =
    Raises_RequestException string
  | Response_not_JSON string
  | Response_JSON json

text \<open>What \<^verbatim>\<open>.delay(...)\<close> does: the broker accepts the task, or the call raises.\<close>

datatype enqueue_outcome = Accepted | Enqueue_raises string

datatype response =
    JsonResponse "(string \<times> json) list" nat
  | HttpResponseRedirect string

definition status_code :: "response \<Rightarrow> nat" where
  "status_code r = (case r of JsonResponse _ c \<Rightarrow> c | HttpResponseRedirect _ \<Rightarrow> 302)"

subsection \<open>Queries and writes\<close>

definition returned_count :: "nat \<Rightarrow> string" where
  "returned_count n = (if n < 21 then show_nat n else ''more than 20'')"

text \<open>\<^verbatim>\<open>get_object_or_404(Payment, chapa_transaction_id=tx_ref)\<close>.\<close>

definition get_object_or_404 :: "db \<Rightarrow> string \<Rightarrow> exn + Payment" where
  "get_object_or_404 s tx_ref =
     (case filter (\<lambda>p. chapa_transaction_id p = Some tx_ref) (payments s) of
        [] \<Rightarrow> Inl (Exn Http404 ''No Payment matches the given query.'')
      | [p] \<Rightarrow> Inr p
      | ps \<Rightarrow> Inl (Exn MultipleObjectsReturned
                 (''get() returned more than one Payment -- it returned '' @
                  returned_count (length ps) @ ''!'')))"

text \<open>\<^verbatim>\<open>Booking.objects.get(booking_id=booking_id, user=request.user)\<close>.\<close>

definition Booking_objects_get :: "db \<Rightarrow> uuid \<Rightarrow> User \<Rightarrow> exn + Booking" where
  "Booking_objects_get s bid u =
     (case filter (\<lambda>b. booking_id b = bid \<and> user_id (user b) = user_id u) (bookings s) of
        [] \<Rightarrow> Inl (Exn Booking_DoesNotExist ''Booking matching query does not exist.'')
      | [b] \<Rightarrow> Inr b
      | bs \<Rightarrow> Inl (Exn MultipleObjectsReturned
                 (''get() returned more than one Booking -- it returned '' @
                  returned_count (length bs) @ ''!'')))"

text \<open>\<^verbatim>\<open>payment.booking\<close>: the row the foreign key points to.\<close>

definition payment_booking :: "db \<Rightarrow> Payment \<Rightarrow> exn + Booking" where
  "payment_booking s p =
     (case find (\<lambda>b. booking_id b = booking p) (bookings s) of
        None \<Rightarrow> Inl (Exn Booking_DoesNotExist ''Payment has no booking.'')
      | Some b \<Rightarrow> Inr b)"

text \<open>
  \<^verbatim>\<open>Payment.objects.create(...)\<close>: an insert, refused by the primary key and by
  \<^verbatim>\<open>unique=True\<close> of \<^verbatim>\<open>chapa_transaction_id\<close> (the texts are SQLite's).
\<close>

definition Payment_objects_create :: "Payment \<Rightarrow> db \<Rightarrow> exn + db" where
  "Payment_objects_create p s =
     (if payment_id p \<in> set (map payment_id (payments s))
      then Inl (Exn IntegrityError ''UNIQUE constraint failed: listings_payment.payment_id'')
      else if chapa_transaction_id p \<noteq> None \<and>
              chapa_transaction_id p \<in> set (map chapa_transaction_id (payments s))
      then Inl (Exn IntegrityError
                 ''UNIQUE constraint failed: listings_payment.chapa_transaction_id'')
      else Inr (s\<lparr>payments := payments s @ [p]\<rparr>))"

text \<open>\<^verbatim>\<open>payment.save()\<close>: update of the row with this primary key, an insert if none.\<close>

definition save_payment :: "Payment \<Rightarrow> db \<Rightarrow> db" where
  "save_payment p s =
     (if payment_id p \<in> set (map payment_id (payments s))
      then s\<lparr>payments := map (\<lambda>q. if payment_id q = payment_id p then p else q) (payments s)\<rparr>
      else s\<lparr>payments := payments s @ [p]\<rparr>)"

text \<open>\<^verbatim>\<open>payment.booking.save()\<close>.\<close>

definition save_booking :: "Booking \<Rightarrow> db \<Rightarrow> db" where
  "save_booking b s =
     (if booking_id b \<in> set (map booking_id (bookings s))
      then s\<lparr>bookings := map (\<lambda>c. if booking_id c = booking_id b then b else c) (bookings s)\<rparr>
      else s\<lparr>bookings := bookings s @ [b]\<rparr>)"

section \<open>The request\<close>

text \<open>
  A field of the request's JSON body, by what the view does with it: \<open>Falsy\<close> when
  \<^verbatim>\<open>not x\<close> holds (absent, \<^verbatim>\<open>null\<close>, empty or zero), \<open>Invalid\<close> when it is truthy
  and its conversion raises (with the text of the exception), \<open>Value\<close> when the
  conversion gives a value.
\<close>

datatype 'a field = Falsy | Invalid string | Value 'a

text \<open>
  \<^verbatim>\<open>json.loads(request.body)\<close>: the body is not JSON, or it is JSON but no dict (with
  the name of its Python type), or it is a dict whose \<^verbatim>\<open>booking_id\<close> converts to a
  UUID and whose \<^verbatim>\<open>amount\<close> is given by the text \<^verbatim>\<open>str(amount)\<close> and its value.
\<close>

datatype request_body =
    Invalid_JSON string
  | Not_a_dict string
  | Body_dict "uuid field" "(string \<times> decimal) field"

record request =
  request_method :: string
  request_user :: "User option"
  request_body :: request_body
  origin :: string

text \<open>
  \<open>request_user\<close> is \<open>None\<close> for a caller that is not authenticated; \<open>origin\<close> is the
  scheme and host that \<^verbatim>\<open>build_absolute_uri\<close> puts before a path.
\<close>

definition build_absolute_uri :: "request \<Rightarrow> string \<Rightarrow> string" where
  "build_absolute_uri req location = origin req @ location"

section \<open>initiate_chapa_payment\<close>

definition is_falsy :: "'a field \<Rightarrow> bool" where
  "is_falsy f = (case f of Falsy \<Rightarrow> True | _ \<Rightarrow> False)"

definition make_tx_ref :: "Booking \<Rightarrow> uuid \<Rightarrow> string" where
  "make_tx_ref b uuid4 = hex (booking_id b) @ ''-'' @ hex uuid4"

definition initiate_payload :: "request \<Rightarrow> Booking \<Rightarrow> string \<Rightarrow> string \<Rightarrow> payload" where
  "initiate_payload req b amount_text tx_ref =
     \<lparr>payload_amount = amount_text,
      payload_currency = ''ETB'',
      payload_email = email (user b),
      payload_first_name = first_name (user b),
      payload_last_name = last_name (user b),
      payload_tx_ref = tx_ref,
      payload_callback_url =
        build_absolute_uri req (''/api/payments/chapa/verify/'' @ tx_ref @ ''/''),
      payload_return_url = build_absolute_uri req ''/payment-status/'',
      payload_title = ''Travel Booking Payment'',
      payload_description = ''Payment for booking '' @ uuid_str (booking_id b)\<rparr>"

text \<open>
  The \<^verbatim>\<open>try\<close> block up to and including \<^verbatim>\<open>Payment.objects.create\<close>: it leaves
  early with an exception or a response and the database as it was, or goes on
  with the booking, the text of the amount, the reference, the new row and the
  database that holds it.
\<close>

definition initiate_create ::
  "request \<Rightarrow> User \<Rightarrow> uuid \<Rightarrow> uuid \<Rightarrow> db \<Rightarrow>
   (exn + response) + (Booking \<times> string \<times> string \<times> Payment \<times> db)" where
  "initiate_create req u uuid4_tx uuid4_pk s =
     (case request_body req of
        Invalid_JSON msg \<Rightarrow> Inl (Inl (Exn JSONDecodeError msg))
      | Not_a_dict tname \<Rightarrow>
          Inl (Inl (Exn AttributeError
                 (quote tname @ '' object has no attribute '' @ quote ''get'')))
      | Body_dict booking_id_field amount_field \<Rightarrow>
          if is_falsy booking_id_field \<or> is_falsy amount_field
          then Inl (Inr (JsonResponse
                 [(''error'', JString ''Booking ID and amount are required.'')] 400))
          else
            (case booking_id_field of
               Falsy \<Rightarrow> Inl (Inr (JsonResponse
                 [(''error'', JString ''Booking ID and amount are required.'')] 400))
             | Invalid msg \<Rightarrow> Inl (Inl (Exn ValidationError msg))
             | Value bid \<Rightarrow>
                 (case Booking_objects_get s bid u of
                    Inl e \<Rightarrow>
                      if is_Booking_DoesNotExist e
                      then Inl (Inr (JsonResponse
                             [(''error'',
                               JString ''Booking not found or you do not own this booking.'')]
                             404))
                      else Inl (Inl e)
                  | Inr b \<Rightarrow>
                      (case amount_field of
                         Falsy \<Rightarrow> Inl (Inr (JsonResponse
                           [(''error'', JString ''Booking ID and amount are required.'')] 400))
                       | Invalid msg \<Rightarrow> Inl (Inl (Exn ValueError msg))
                       | Value (amount_text, amount_value) \<Rightarrow>
                           if py_float amount_value \<noteq> py_float (total_price b)
                           then Inl (Inr (JsonResponse
                                  [(''error'',
                                    JString (''Amount '' @ amount_text @
                                      '' does not match booking total price '' @
                                      decimal_str (total_price b) @ ''.''))]
                                  400))
                           else
                             (let tx_ref = make_tx_ref b uuid4_tx;
                                  payment =
                                    \<lparr>payment_id = uuid4_pk,
                                     booking = booking_id b,
                                     amount = amount_value,
                                     chapa_transaction_id = Some tx_ref,
                                     status = PENDING,
                                     chapa_status_text = Some ''Initiation pending'',
                                     payment_method = CHAPA\<rparr>
                              in case Payment_objects_create payment s of
                                   Inl e \<Rightarrow> Inl (Inl e)
                                 | Inr s1 \<Rightarrow>
                                     Inr (b, amount_text, tx_ref, payment, s1))))))"

text \<open>
  The rest of the \<^verbatim>\<open>try\<close> block: the call of the gateway and what the view
  does with its answer. The result is the exception or the response, the local
  variable \<^verbatim>\<open>payment\<close>, and the database.
\<close>

definition initiate_gateway ::
  "request \<Rightarrow> gateway_outcome \<Rightarrow> Booking \<Rightarrow> string \<Rightarrow> string \<Rightarrow> Payment \<Rightarrow> db \<Rightarrow>
   (exn + response) \<times> Payment option \<times> db" where
  "initiate_gateway req gw b amount_text tx_ref payment s1 =
     (let s2 = s1\<lparr>gateway_calls :=
                 gateway_calls s1 @ [Initiate_call (initiate_payload req b amount_text tx_ref)]\<rparr>
      in case gw of
           Raises_RequestException msg \<Rightarrow> (Inl (Exn RequestException msg), Some payment, s2)
         | Response_not_JSON msg \<Rightarrow> (Inl (Exn Requests_JSONDecodeError msg), Some payment, s2)
         | Response_JSON response_data \<Rightarrow>
             (case py_get response_data ''status'' of
                Inl e \<Rightarrow> (Inl e, Some payment, s2)
              | Inr st \<Rightarrow>
                  if st = Some (JString ''success'')
                  then
                    (case py_getitem response_data ''data'' of
                       Inl e \<Rightarrow> (Inl e, Some payment, s2)
                     | Inr data \<Rightarrow>
                         (case py_getitem data ''checkout_url'' of
                            Inl e \<Rightarrow> (Inl e, Some payment, s2)
                          | Inr checkout_url \<Rightarrow>
                              (case py_get_default response_data ''message''
                                      (JString
                                        ''Payment initiation successful, awaiting completion.'') of
                                 Inl e \<Rightarrow> (Inl e, Some payment, s2)
                               | Inr text \<Rightarrow>
                                   (let payment1 =
                                          payment\<lparr>chapa_status_text := charfield text\<rparr>
                                    in (Inr (JsonResponse
                                              [(''status'', JString ''success''),
                                               (''checkout_url'', checkout_url),
                                               (''tx_ref'', JString tx_ref)] 200),
                                        Some payment1, save_payment payment1 s2)))))
                  else
                    (case py_get_default response_data ''message''
                            (JString ''Failed to initiate payment with Chapa.'') of
                       Inl e \<Rightarrow> (Inl e, Some (payment\<lparr>status := FAILED\<rparr>), s2)
                     | Inr text \<Rightarrow>
                         (let payment1 =
                                payment\<lparr>status := FAILED, chapa_status_text := charfield text\<rparr>
                          in (Inr (JsonResponse
                                    [(''status'', JString ''error''), (''message'', text)] 400),
                              Some payment1, save_payment payment1 s2)))))"

definition initiate_try ::
  "request \<Rightarrow> User \<Rightarrow> uuid \<Rightarrow> uuid \<Rightarrow> gateway_outcome \<Rightarrow> db \<Rightarrow>
   (exn + response) \<times> Payment option \<times> db" where
  "initiate_try req u uuid4_tx uuid4_pk gw s =
     (case initiate_create req u uuid4_tx uuid4_pk s of
        Inl out \<Rightarrow> (out, None, s)
      | Inr (b, amount_text, tx_ref, payment, s1) \<Rightarrow>
          initiate_gateway req gw b amount_text tx_ref payment s1)"

text \<open>
  The guarded write of the \<^verbatim>\<open>except\<close> clauses:
  \<^verbatim>\<open>if 'payment' in locals() and payment.status == PENDING\<close>.
\<close>

definition fail_if_pending :: "Payment option \<Rightarrow> string \<Rightarrow> db \<Rightarrow> db" where
  "fail_if_pending local_payment text s =
     (case local_payment of
        None \<Rightarrow> s
      | Some payment \<Rightarrow>
          if status payment = PENDING
          then save_payment (payment\<lparr>status := FAILED, chapa_status_text := Some text\<rparr>) s
          else s)"

definition initiate_chapa_payment ::
  "request \<Rightarrow> uuid \<Rightarrow> uuid \<Rightarrow> gateway_outcome \<Rightarrow> db \<Rightarrow> response \<times> db" where
  "initiate_chapa_payment req uuid4_tx uuid4_pk gw s =
     (if request_method req = ''POST'' then
        (case request_user req of
           None \<Rightarrow> (JsonResponse [(''error'', JString ''Authentication required.'')] 401, s)
         | Some u \<Rightarrow>
             (case initiate_try req u uuid4_tx uuid4_pk gw s of
                (Inr r, local_payment, s') \<Rightarrow> (r, s')
              | (Inl e, local_payment, s') \<Rightarrow>
                  if is_JSONDecodeError e
                  then (JsonResponse [(''error'', JString ''Invalid JSON body.'')] 400, s')
                  else if is_RequestException e
                  then (JsonResponse
                          [(''status'', JString ''error''),
                           (''message'',
                            JString ''Could not connect to payment gateway or API error.'')] 500,
                        fail_if_pending local_payment (''API Request Error: '' @ exn_str e) s')
                  else (JsonResponse
                          [(''status'', JString ''error''),
                           (''message'',
                            JString (''An internal error occurred: '' @ exn_str e))] 500,
                        fail_if_pending local_payment (''Internal Error: '' @ exn_str e) s')))
      else (JsonResponse
              [(''error'', JString ''Invalid request method. Only POST is allowed.'')] 405, s))"

section \<open>verify_chapa_payment\<close>

text \<open>
  The test of line 582,
  \<^verbatim>\<open>response_data.get('status') == 'success' and response_data['data'].get('status') == 'success'\<close>;
  the right operand is evaluated only when the left one holds.
\<close>

definition nested_success :: "json \<Rightarrow> exn + bool" where
  "nested_success response_data =
     (case py_get response_data ''status'' of
        Inl e \<Rightarrow> Inl e
      | Inr st \<Rightarrow>
          if st = Some (JString ''success'')
          then (case py_getitem response_data ''data'' of
                  Inl e \<Rightarrow> Inl e
                | Inr data \<Rightarrow>
                    (case py_get data ''status'' of
                       Inl e \<Rightarrow> Inl e
                     | Inr st2 \<Rightarrow> Inr (st2 = Some (JString ''success''))))
          else Inr False)"

text \<open>
  \<^verbatim>\<open>response_data['data'].get('message', response_data.get('message', 'Payment verification failed.'))\<close>.
\<close>

definition failure_text :: "json \<Rightarrow> exn + json" where
  "failure_text response_data =
     (case py_getitem response_data ''data'' of
        Inl e \<Rightarrow> Inl e
      | Inr data \<Rightarrow>
          (case py_get_default response_data ''message''
                  (JString ''Payment verification failed.'') of
             Inl e \<Rightarrow> Inl e
           | Inr dflt \<Rightarrow> py_get_default data ''message'' dflt))"

text \<open>
  \<^verbatim>\<open>response_data['data'].get('status', 'Payment completed successfully.')\<close>.
\<close>

definition success_text :: "json \<Rightarrow> exn + json" where
  "success_text response_data =
     (case py_getitem response_data ''data'' of
        Inl e \<Rightarrow> Inl e
      | Inr data \<Rightarrow>
          py_get_default data ''status'' (JString ''Payment completed successfully.''))"

definition confirmation_job :: "Payment \<Rightarrow> Booking \<Rightarrow> job" where
  "confirmation_job payment b =
     Send_payment_confirmation_email (uuid_str (payment_id payment)) (email (user b))
       (amount payment) (uuid_str (booking_id b))"

text \<open>Lines 583 to 600: the branch taken when the gateway reports success.\<close>

definition verify_success ::
  "json \<Rightarrow> enqueue_outcome \<Rightarrow> Payment \<Rightarrow> db \<Rightarrow> (exn + response) \<times> Payment option \<times> db" where
  "verify_success response_data enq payment s1 =
     (case success_text response_data of
        Inl e \<Rightarrow> (Inl e, Some (payment\<lparr>status := COMPLETED\<rparr>), s1)
      | Inr text \<Rightarrow>
          (let payment1 = payment\<lparr>status := COMPLETED, chapa_status_text := charfield text\<rparr>;
               s2 = save_payment payment1 s1
           in case payment_booking s2 payment1 of
                Inl e \<Rightarrow> (Inl e, Some payment1, s2)
              | Inr b \<Rightarrow>
                  (let b1 = (if booking_status b \<noteq> Booking_CONFIRMED
                             then b\<lparr>booking_status := Booking_CONFIRMED\<rparr> else b);
                       s3 = (if booking_status b \<noteq> Booking_CONFIRMED
                             then save_booking b1 s2 else s2)
                   in case enq of
                        Enqueue_raises msg \<Rightarrow> (Inl (Exn OperationalError msg), Some payment1, s3)
                      | Accepted \<Rightarrow>
                          (Inr (HttpResponseRedirect ''/payment-success/''), Some payment1,
                           s3\<lparr>jobs := jobs s3 @ [confirmation_job payment1 b1]\<rparr>))))"

text \<open>Lines 602 to 609: the branch taken otherwise.\<close>

definition verify_failure ::
  "string \<Rightarrow> json \<Rightarrow> Payment \<Rightarrow> db \<Rightarrow> (exn + response) \<times> Payment option \<times> db" where
  "verify_failure tx_ref response_data payment s1 =
     (case failure_text response_data of
        Inl e \<Rightarrow> (Inl e, Some (payment\<lparr>status := FAILED\<rparr>), s1)
      | Inr text \<Rightarrow>
          (let payment1 = payment\<lparr>status := FAILED, chapa_status_text := charfield text\<rparr>
           in (Inr (HttpResponseRedirect
                     (''/payment-fail/?tx_ref='' @ tx_ref @ ''&status='' @ py_str text)),
               Some payment1, save_payment payment1 s1)))"

definition verify_try ::
  "string \<Rightarrow> gateway_outcome \<Rightarrow> enqueue_outcome \<Rightarrow> db \<Rightarrow>
   (exn + response) \<times> Payment option \<times> db" where
  "verify_try tx_ref gw enq s =
     (case get_object_or_404 s tx_ref of
        Inl e \<Rightarrow> (Inl e, None, s)
      | Inr payment \<Rightarrow>
          if status payment = COMPLETED \<or> status payment = FAILED
          then (Inr (HttpResponseRedirect
                      (''/payment-status/?tx_ref='' @ tx_ref @ ''&status='' @
                       lower (status_value (status payment)))),
                Some payment, s)
          else
            (let s1 = s\<lparr>gateway_calls := gateway_calls s @ [Verify_call tx_ref]\<rparr>
             in case gw of
                  Raises_RequestException msg \<Rightarrow>
                    (Inl (Exn RequestException msg), Some payment, s1)
                | Response_not_JSON msg \<Rightarrow>
                    (Inl (Exn Requests_JSONDecodeError msg), Some payment, s1)
                | Response_JSON response_data \<Rightarrow>
                    (case nested_success response_data of
                       Inl e \<Rightarrow> (Inl e, Some payment, s1)
                     | Inr ok \<Rightarrow>
                         if ok then verify_success response_data enq payment s1
                         else verify_failure tx_ref response_data payment s1)))"

definition verify_chapa_payment ::
  "string \<Rightarrow> gateway_outcome \<Rightarrow> enqueue_outcome \<Rightarrow> db \<Rightarrow> response \<times> db" where
  "verify_chapa_payment tx_ref gw enq s =
     (case verify_try tx_ref gw enq s of
        (Inr r, local_payment, s') \<Rightarrow> (r, s')
      | (Inl e, local_payment, s') \<Rightarrow>
          if is_Payment_DoesNotExist e
          then (JsonResponse
                  [(''status'', JString ''error''),
                   (''message'', JString ''Payment record not found.'')] 404, s')
          else if is_RequestException e
          then (HttpResponseRedirect (''/payment-fail/?tx_ref='' @ tx_ref @ ''&error=api_error''),
                fail_if_pending local_payment (''API Verification Error: '' @ exn_str e) s')
          else (HttpResponseRedirect
                  (''/payment-fail/?tx_ref='' @ tx_ref @ ''&error=internal_error''),
                fail_if_pending local_payment (''Internal Error: '' @ exn_str e) s'))"

section \<open>Integrity of the database\<close>

text \<open>
  What the schema guarantees of the stored rows: primary keys are unique,
  \<^verbatim>\<open>chapa_transaction_id\<close> is unique where it is not null, and the foreign key of
  every payment points to a booking.
\<close>

definition db_ok :: "db \<Rightarrow> bool" where
  "db_ok s =
     (distinct (map payment_id (payments s)) \<and>
      distinct (map booking_id (bookings s)) \<and>
      distinct (filter (\<lambda>t. t \<noteq> None) (map chapa_transaction_id (payments s))) \<and>
      list_all (\<lambda>p. booking p \<in> set (map booking_id (bookings s))) (payments s))"

text \<open>The status stored under a payment identifier.\<close>

definition stored_status :: "db \<Rightarrow> uuid \<Rightarrow> ChapaPaymentStatusChoices option" where
  "stored_status s pid = map_option status (find (\<lambda>q. payment_id q = pid) (payments s))"

section \<open>Example data\<close>

definition guest :: User where
  "guest = \<lparr>user_id = UUID ''11111111111111111111111111111111'',
            email = ''guest@example.com'', first_name = ''Ada'', last_name = ''Guest''\<rparr>"

definition booking0 :: Booking where
  "booking0 = \<lparr>booking_id = UUID ''aaaaaaaaaaaaaaaaaaaaaaaaaaaaaaaa'', user = guest,
               total_price = 80000, booking_status = Booking_PENDING\<rparr>"

definition payment0 :: Payment where
  "payment0 = \<lparr>payment_id = UUID ''bbbbbbbbbbbbbbbbbbbbbbbbbbbbbbbb'',
               booking = UUID ''aaaaaaaaaaaaaaaaaaaaaaaaaaaaaaaa'', amount = 80000,
               chapa_transaction_id = Some ''ref0'', status = PENDING,
               chapa_status_text = Some ''Initiation pending'', payment_method = CHAPA\<rparr>"

definition db_empty :: db where
  "db_empty = \<lparr>bookings = [], payments = [], gateway_calls = [], jobs = []\<rparr>"

definition db0 :: db where
  "db0 = \<lparr>bookings = [booking0], payments = [payment0], gateway_calls = [], jobs = []\<rparr>"


text \<open>Gateway answers: nested success, a rejection with details, a rejection without.\<close>

definition body_success :: json where
  "body_success =
     JObject [(''status'', JString ''success''), (''message'', JString ''Payment details''),
              (''data'', JObject [(''status'', JString ''success'')])]"

definition body_failed :: json where
  "body_failed =
     JObject [(''status'', JString ''success''), (''message'', JString ''Payment details''),
              (''data'', JObject [(''status'', JString ''failed''),
                                  (''message'', JString ''Card declined'')])]"

definition body_no_data :: json where
  "body_no_data =
     JObject [(''status'', JString ''failed''),
              (''message'', JString ''Invalid transaction or Transaction not found'')]"


definition request0 :: request where
  "request0 = \<lparr>request_method = ''POST'', request_user = Some guest,
               request_body = Body_dict (Value (UUID ''aaaaaaaaaaaaaaaaaaaaaaaaaaaaaaaa''))
                                        (Value (''800.00'', 80000)),
               origin = ''http://testserver''\<rparr>"



section \<open>Sequences of calls\<close>

text \<open>
  The two views as operations on the database, and a sequence of requests
  served one after the other.
\<close>

datatype operation =
    VerifyPayment string gateway_outcome enqueue_outcome
  | InitiatePayment request uuid uuid gateway_outcome

fun apply_operation :: "operation \<Rightarrow> db \<Rightarrow> db" where
  "apply_operation (VerifyPayment tx_ref gw enq) s = snd (verify_chapa_payment tx_ref gw enq s)"
| "apply_operation (InitiatePayment req uuid4_tx uuid4_pk gw) s =
     snd (initiate_chapa_payment req uuid4_tx uuid4_pk gw s)"

fun run :: "operation list \<Rightarrow> db \<Rightarrow> db" where
  "run [] s = s"
| "run (x # xs) s = run xs (apply_operation x s)"

text \<open>
  The columns of a payment that no view writes after the insert, and what it
  means that a step from \<open>s\<close> to \<open>s'\<close> keeps these columns, the identifiers of the
  bookings, and every payment other than the one with primary key \<open>pk\<close>.
\<close>

definition payment_keys :: "Payment \<Rightarrow> uuid \<times> string option \<times> uuid" where
  "payment_keys p = (payment_id p, chapa_transaction_id p, booking p)"

definition same_rows :: "uuid \<Rightarrow> db \<Rightarrow> db \<Rightarrow> bool" where
  "same_rows pk s s' =
     (map payment_keys (payments s') = map payment_keys (payments s) \<and>
      map booking_id (bookings s') = map booking_id (bookings s) \<and>
      list_all (\<lambda>p. payment_id p \<noteq> pk \<longrightarrow> p \<in> set (payments s')) (payments s))"

text \<open>A database whose payment is COMPLETED, and requests that follow.\<close>

definition payment_completed :: Payment where
  "payment_completed = payment0\<lparr>status := COMPLETED, chapa_status_text := Some ''success''\<rparr>"

definition db_completed :: db where
  "db_completed = \<lparr>bookings = [booking0\<lparr>booking_status := Booking_CONFIRMED\<rparr>],
                   payments = [payment_completed], gateway_calls = [Verify_call ''ref0''],
                   jobs = []\<rparr>"

definition calls0 :: "operation list" where
  "calls0 =
     [VerifyPayment ''ref0'' (Response_JSON body_failed) Accepted,
      InitiatePayment request0 (UUID ''cccccccccccccccccccccccccccccccc'')
        (UUID ''dddddddddddddddddddddddddddddddd'') (Raises_RequestException ''timed out''),
      VerifyPayment ''ref0'' (Raises_RequestException ''timed out'') Accepted]"



section \<open>Lookup by transaction reference\<close>

lemma get_object_or_404_Inl:
  "get_object_or_404 s tx = Inl e \<Longrightarrow>
   exn_class e = Http404 \<or> exn_class e = MultipleObjectsReturned"
  by (auto simp: get_object_or_404_def split: list.splits)

lemma get_object_or_404_Inr:
  assumes "get_object_or_404 s tx = Inr p"
  shows "p \<in> set (payments s) \<and> chapa_transaction_id p = Some tx"
proof -
  from assms have "filter (\<lambda>p. chapa_transaction_id p = Some tx) (payments s) = [p]"
    by (auto simp: get_object_or_404_def split: list.splits)
  then have "p \<in> set (filter (\<lambda>p. chapa_transaction_id p = Some tx) (payments s))"
    by simp
  then show ?thesis by simp
qed

lemma verify_not_found:
  assumes "get_object_or_404 s tx = Inl e"
  shows "verify_chapa_payment tx gw enq s =
     (HttpResponseRedirect (''/payment-fail/?tx_ref='' @ tx @ ''&error=internal_error''), s)"
  using get_object_or_404_Inl[OF assms] assms
  by (auto simp: verify_chapa_payment_def verify_try_def is_Payment_DoesNotExist_def
      is_RequestException_def fail_if_pending_def)

lemma verify_terminal:
  assumes "get_object_or_404 s tx = Inr p" "status p = COMPLETED \<or> status p = FAILED"
  shows "verify_chapa_payment tx gw enq s =
     (HttpResponseRedirect (''/payment-status/?tx_ref='' @ tx @ ''&status='' @
                            lower (status_value (status p))), s)"
  using assms by (auto simp: verify_chapa_payment_def verify_try_def)

section \<open>Writes keep the database well formed\<close>

lemma filter_unique:
  "distinct xs \<Longrightarrow> p \<in> set xs \<Longrightarrow> P p \<Longrightarrow> (\<forall>q\<in>set xs. P q \<longrightarrow> q = p) \<Longrightarrow> filter P xs = [p]"
proof (induction xs)
  case Nil
  then show ?case by simp
next
  case (Cons a xs)
  from Cons.prems(1) have dx: "distinct xs" and ax: "a \<notin> set xs" by simp_all
  from Cons.prems(4) have all: "\<forall>q\<in>set xs. P q \<longrightarrow> q = p" and Pa: "P a \<longrightarrow> a = p"
    by simp_all
  show ?case
  proof (cases "a = p")
    case True
    have "\<forall>q\<in>set xs. \<not> P q"
    proof
      fix q assume q: "q \<in> set xs"
      show "\<not> P q"
      proof
        assume "P q"
        with all q have "q = p" by blast
        with True ax q show False by simp
      qed
    qed
    then have "filter P xs = []" by (simp only: filter_empty_conv)
    with True Cons.prems(3) show ?thesis by simp
  next
    case False
    with Pa have nPa: "\<not> P a" by blast
    from Cons.prems(2) False have "p \<in> set xs" by simp
    from Cons.IH[OF dx this Cons.prems(3) all] nPa show ?thesis by simp
  qed
qed

lemma tx_ref_unique:
  assumes "distinct (filter (\<lambda>t. t \<noteq> None) (map chapa_transaction_id ps))"
    "p \<in> set ps" "q \<in> set ps" "chapa_transaction_id p = Some tx" "chapa_transaction_id q = Some tx"
  shows "q = p"
proof -
  have "filter (\<lambda>t. t \<noteq> None) (map chapa_transaction_id ps) =
        map chapa_transaction_id (filter (\<lambda>r. chapa_transaction_id r \<noteq> None) ps)"
    by (simp add: filter_map comp_def)
  with assms(1) have inj: "inj_on chapa_transaction_id (set (filter (\<lambda>r. chapa_transaction_id r \<noteq> None) ps))"
    by (simp only: distinct_map)
  have pin: "p \<in> set (filter (\<lambda>r. chapa_transaction_id r \<noteq> None) ps)"
    and qin: "q \<in> set (filter (\<lambda>r. chapa_transaction_id r \<noteq> None) ps)" using assms by auto
  have "chapa_transaction_id q = chapa_transaction_id p" using assms(4,5) by simp
  from inj_onD[OF inj this qin pin] show ?thesis .
qed

lemma get_object_or_404_found:
  assumes "db_ok s" "p \<in> set (payments s)" "chapa_transaction_id p = Some tx"
  shows "get_object_or_404 s tx = Inr p"
proof -
  from assms(1) have d: "distinct (payments s)" 
    and t: "distinct (filter (\<lambda>t. t \<noteq> None) (map chapa_transaction_id (payments s)))"
    by (auto simp: db_ok_def distinct_map)
  have "\<forall>q\<in>set (payments s). chapa_transaction_id q = Some tx \<longrightarrow> q = p"
    using tx_ref_unique[OF t assms(2) _ assms(3)] by blast
  from filter_unique[OF d assms(2), of "\<lambda>p. chapa_transaction_id p = Some tx", OF assms(3) this]
  show ?thesis by (simp add: get_object_or_404_def)
qed

lemma map_same: "(\<And>x. x \<in> set xs \<Longrightarrow> g (f x) = g x) \<Longrightarrow> map g (map f xs) = map g xs"
  by (induction xs) auto

lemma save_payment_payments:
  "p \<in> set (payments s) \<Longrightarrow> payment_id p' = payment_id p \<Longrightarrow>
   payments (save_payment p' s) = map (\<lambda>q. if payment_id q = payment_id p' then p' else q) (payments s)"
  by (auto simp: save_payment_def)

lemma save_payment_other [simp]:
  "bookings (save_payment p' s) = bookings s"
  "jobs (save_payment p' s) = jobs s"
  "gateway_calls (save_payment p' s) = gateway_calls s"
  by (auto simp: save_payment_def)

lemma save_payment_db_ok:
  assumes "db_ok s" "p \<in> set (payments s)" "payment_id p' = payment_id p"
    "chapa_transaction_id p' = chapa_transaction_id p" "booking p' = booking p"
  shows "db_ok (save_payment p' s)"
proof -
  let ?f = "\<lambda>q. if payment_id q = payment_id p' then p' else q"
  have d: "distinct (map payment_id (payments s))" using assms(1) by (simp add: db_ok_def)
  have eq: "\<And>q. q \<in> set (payments s) \<Longrightarrow> payment_id q = payment_id p \<Longrightarrow> q = p"
    using d assms(2) by (auto simp: distinct_map dest: inj_onD)
  have same: "\<And>q. q \<in> set (payments s) \<Longrightarrow> payment_id q = payment_id p' \<Longrightarrow> q = p"
    using eq assms(3) by simp
  have 1: "map payment_id (map ?f (payments s)) = map payment_id (payments s)"
    by (rule map_same) simp
  have 2: "map chapa_transaction_id (map ?f (payments s)) = map chapa_transaction_id (payments s)"
  proof (rule map_same)
    fix x assume "x \<in> set (payments s)"
    from same[OF this] show "chapa_transaction_id (?f x) = chapa_transaction_id x"
      by (cases "payment_id x = payment_id p'") (simp_all add: assms(4))
  qed
  have 4: "list_all (\<lambda>p. booking p \<in> set (map booking_id (bookings s))) (map ?f (payments s))"
    unfolding list_all_iff
  proof
    fix y assume "y \<in> set (map ?f (payments s))"
    then obtain x where x: "x \<in> set (payments s)" and y: "y = ?f x" by auto
    from assms(1) x have bx: "booking x \<in> set (map booking_id (bookings s))"
      by (simp add: db_ok_def list_all_iff)
    show "booking y \<in> set (map booking_id (bookings s))"
    proof (cases "payment_id x = payment_id p'")
      case True
      with same[OF x] have "x = p" by simp
      with True y bx show ?thesis by (simp add: assms(5))
    next
      case False
      with y bx show ?thesis by simp
    qed
  qed
  have 5: "payments (save_payment p' s) = map ?f (payments s)"
    by (rule save_payment_payments[OF assms(2,3)])
  show ?thesis
    unfolding db_ok_def 5 1 2 save_payment_other
    using assms(1) 4 by (simp only: db_ok_def simp_thms)
qed

lemma save_payment_mem:
  assumes "p \<in> set (payments s)" "payment_id p' = payment_id p"
  shows "p' \<in> set (payments (save_payment p' s))"
proof -
  have "(if payment_id p = payment_id p' then p' else p) \<in> (\<lambda>q. if payment_id q = payment_id p' then p' else q) ` set (payments s)"
    using assms(1) by (rule imageI)
  then show ?thesis using assms(2) by (simp add: save_payment_payments[OF assms])
qed

lemma get_after_save:
  assumes "db_ok s" "get_object_or_404 s tx = Inr p" "payment_id p' = payment_id p"
    "chapa_transaction_id p' = chapa_transaction_id p" "booking p' = booking p"
  shows "get_object_or_404 (save_payment p' s) tx = Inr p'"
proof -
  from get_object_or_404_Inr[OF assms(2)] have m: "p \<in> set (payments s)" and t: "chapa_transaction_id p = Some tx" by auto
  show ?thesis
    by (rule get_object_or_404_found[OF save_payment_db_ok[OF assms(1) m assms(3,4,5)] save_payment_mem[OF m assms(3)]])
       (simp add: assms(4) t)
qed

section \<open>Unknown transaction reference\<close>

text \<open>
  C8. For a reference that matches no payment the claim promises a NotFound
  answer with HTTP status 404 and no change of state. The view leaves the state
  as it is, but \<^verbatim>\<open>get_object_or_404\<close> raises \<^verbatim>\<open>Http404\<close>, which is not
  \<^verbatim>\<open>Payment.DoesNotExist\<close>, so the clause that answers 404 is never taken and
  \<^verbatim>\<open>except Exception\<close> answers with a redirect to the failure page. Evaluated
  on the empty database for the reference \<open>nope\<close>.
\<close>

theorem verify_unknown_reference_redirects:
  "verify_chapa_payment ''nope'' gw enq db_empty =
     (HttpResponseRedirect ''/payment-fail/?tx_ref=nope&error=internal_error'', db_empty) \<and>
   status_code (fst (verify_chapa_payment ''nope'' gw enq db_empty)) = 302"
  by (simp add: verify_chapa_payment_def verify_try_def get_object_or_404_def db_empty_def
      is_Payment_DoesNotExist_def is_RequestException_def fail_if_pending_def status_code_def)

section \<open>The booking of a payment\<close>

lemma payment_booking_found:
  assumes "db_ok s" "p \<in> set (payments s)"
  shows "\<exists>b. payment_booking s p = Inr b \<and> booking_id b = booking p \<and> b \<in> set (bookings s)"
proof -
  from assms have m: "booking p \<in> set (map booking_id (bookings s))"
    by (simp add: db_ok_def list_all_iff)
  show ?thesis
  proof (cases "find (\<lambda>b. booking_id b = booking p) (bookings s)")
    case None
    then have "\<forall>b\<in>set (bookings s). booking_id b \<noteq> booking p" by (simp add: find_None_iff)
    with m show ?thesis by auto
  next
    case (Some b)
    then have "booking_id b = booking p" "b \<in> set (bookings s)"
      by (auto simp: find_Some_iff)
    with Some show ?thesis by (simp add: payment_booking_def)
  qed
qed

lemma payment_booking_Inr:
  "payment_booking s p = Inr b \<Longrightarrow> booking_id b = booking p \<and> b \<in> set (bookings s)"
  by (auto simp: payment_booking_def find_Some_iff split: option.splits)

lemma payment_booking_cong:
  "bookings s' = bookings s \<Longrightarrow> booking p' = booking p \<Longrightarrow> payment_booking s' p' = payment_booking s p"
  by (simp add: payment_booking_def)

lemma save_booking_other [simp]:
  "payments (save_booking b s) = payments s"
  "jobs (save_booking b s) = jobs s"
  "gateway_calls (save_booking b s) = gateway_calls s"
  by (simp_all add: save_booking_def)

lemma save_booking_bookings:
  "b \<in> set (bookings s) \<Longrightarrow> booking_id b' = booking_id b \<Longrightarrow>
   bookings (save_booking b' s) = map (\<lambda>c. if booking_id c = booking_id b' then b' else c) (bookings s)"
  by (auto simp: save_booking_def)

lemma save_booking_ids:
  assumes "b \<in> set (bookings s)" "booking_id b' = booking_id b"
  shows "map booking_id (bookings (save_booking b' s)) = map booking_id (bookings s)"
  unfolding save_booking_bookings[OF assms] by (rule map_same) simp

lemma save_booking_db_ok:
  assumes "db_ok s" "b \<in> set (bookings s)" "booking_id b' = booking_id b"
  shows "db_ok (save_booking b' s)"
  using assms(1) unfolding db_ok_def save_booking_ids[OF assms(2,3)] save_booking_other .

lemma find_replace:
  "k b' = x \<Longrightarrow>
   find (\<lambda>c. k c = x) (map (\<lambda>c. if k c = k b' then b' else c) xs) =
   map_option (\<lambda>_. b') (find (\<lambda>c. k c = x) xs)"
  by (induction xs) simp_all

lemma payment_booking_after_save:
  assumes "payment_booking s p = Inr b" "booking_id b' = booking_id b"
  shows "payment_booking (save_booking b' s) p = Inr b'"
proof -
  from payment_booking_Inr[OF assms(1)] have k: "booking_id b = booking p" and m: "b \<in> set (bookings s)"
    by simp_all
  from assms(1) have f: "find (\<lambda>c. booking_id c = booking p) (bookings s) = Some b"
    by (simp add: payment_booking_def split: option.splits)
  have kb: "booking_id b' = booking p" using assms(2) k by simp
  show ?thesis
    unfolding payment_booking_def save_booking_bookings[OF m assms(2)]
    by (simp add: find_replace[of booking_id b', OF kb] f)
qed

lemma nested_success_text:
  "nested_success rd = Inr True \<Longrightarrow> success_text rd = Inr (JString ''success'')"
  by (auto simp: nested_success_def success_text_def py_get_def py_getitem_def py_get_default_def
      split: json.splits sum.splits option.splits if_splits)

lemma charfield_JString [simp]: "charfield (JString t) = Some t"
  by (simp add: charfield_def py_str_def)

section \<open>The branches of verify_chapa_payment\<close>

lemma verify_try_open:
  assumes "get_object_or_404 s tx = Inr p" "status p \<noteq> COMPLETED" "status p \<noteq> FAILED"
  shows "verify_try tx gw enq s =
     (case gw of
        Raises_RequestException msg \<Rightarrow>
          (Inl (Exn RequestException msg), Some p,
           s\<lparr>gateway_calls := gateway_calls s @ [Verify_call tx]\<rparr>)
      | Response_not_JSON msg \<Rightarrow>
          (Inl (Exn Requests_JSONDecodeError msg), Some p,
           s\<lparr>gateway_calls := gateway_calls s @ [Verify_call tx]\<rparr>)
      | Response_JSON rd \<Rightarrow>
          (case nested_success rd of
             Inl e \<Rightarrow> (Inl e, Some p, s\<lparr>gateway_calls := gateway_calls s @ [Verify_call tx]\<rparr>)
           | Inr ok \<Rightarrow>
               if ok then verify_success rd enq p (s\<lparr>gateway_calls := gateway_calls s @ [Verify_call tx]\<rparr>)
               else verify_failure tx rd p (s\<lparr>gateway_calls := gateway_calls s @ [Verify_call tx]\<rparr>)))"
  using assms by (simp add: verify_try_def Let_def)

lemma verify_success_explicit:
  assumes b: "payment_booking s1 p = Inr b" and ok: "nested_success rd = Inr True"
    and p1: "p1 = p\<lparr>status := COMPLETED, chapa_status_text := Some ''success''\<rparr>"
    and s2: "s2 = save_payment p1 s1"
    and s3: "s3 = (if booking_status b \<noteq> Booking_CONFIRMED
                   then save_booking (b\<lparr>booking_status := Booking_CONFIRMED\<rparr>) s2 else s2)"
  shows "verify_success rd enq p s1 =
     (case enq of
        Enqueue_raises msg \<Rightarrow> (Inl (Exn OperationalError msg), Some p1, s3)
      | Accepted \<Rightarrow>
          (Inr (HttpResponseRedirect ''/payment-success/''), Some p1,
           s3\<lparr>jobs := jobs s3 @ [confirmation_job p1 b]\<rparr>))"
proof -
  have pb: "payment_booking s2 p1 = Inr b"
    unfolding s2 using b payment_booking_cong[of "save_payment p1 s1" s1 p1 p]
    by (simp add: p1)
  have cj: "confirmation_job p1 (b\<lparr>booking_status := Booking_CONFIRMED\<rparr>) = confirmation_job p1 b"
    by (simp add: confirmation_job_def)
  show ?thesis
    unfolding verify_success_def nested_success_text[OF ok]
    using pb cj
    by (cases enq) (simp_all add: Let_def p1[symmetric] s2[symmetric] s3)
qed

lemma get_object_or_404_cong:
  "payments s' = payments s \<Longrightarrow> get_object_or_404 s' tx = get_object_or_404 s tx"
  by (simp add: get_object_or_404_def)

lemma db_ok_cong:
  "payments s' = payments s \<Longrightarrow> bookings s' = bookings s \<Longrightarrow> db_ok s' = db_ok s"
  by (simp add: db_ok_def)

lemma verify_success_result:
  assumes g: "get_object_or_404 s tx = Inr p"
    and st: "status p \<noteq> COMPLETED" "status p \<noteq> FAILED"
    and b: "payment_booking s p = Inr b" and ok: "nested_success rd = Inr True"
    and p1: "p1 = p\<lparr>status := COMPLETED, chapa_status_text := Some ''success''\<rparr>"
    and s2: "s2 = save_payment p1 (s\<lparr>gateway_calls := gateway_calls s @ [Verify_call tx]\<rparr>)"
    and s3: "s3 = (if booking_status b \<noteq> Booking_CONFIRMED
                   then save_booking (b\<lparr>booking_status := Booking_CONFIRMED\<rparr>) s2 else s2)"
  shows "verify_chapa_payment tx (Response_JSON rd) enq s =
     (case enq of
        Enqueue_raises msg \<Rightarrow>
          (HttpResponseRedirect (''/payment-fail/?tx_ref='' @ tx @ ''&error=internal_error''), s3)
      | Accepted \<Rightarrow>
          (HttpResponseRedirect ''/payment-success/'',
           s3\<lparr>jobs := jobs s3 @ [confirmation_job p1 b]\<rparr>))"
proof -
  let ?s1 = "s\<lparr>gateway_calls := gateway_calls s @ [Verify_call tx]\<rparr>"
  have b1: "payment_booking ?s1 p = Inr b"
    using b payment_booking_cong[of ?s1 s p p] by simp
  have t: "verify_try tx (Response_JSON rd) enq s = verify_success rd enq p ?s1"
    by (simp add: verify_try_open[OF g st] ok)
  have c: "status p1 = COMPLETED" by (simp add: p1)
  show ?thesis
    unfolding verify_chapa_payment_def t verify_success_explicit[OF b1 ok p1 s2 s3]
    by (cases enq)
       (simp_all add: is_Payment_DoesNotExist_def is_RequestException_def fail_if_pending_def c)
qed

lemma verify_success_state:
  assumes ok: "db_ok s" and g: "get_object_or_404 s tx = Inr p"
    and b: "payment_booking s p = Inr b"
    and p1: "p1 = p\<lparr>status := COMPLETED, chapa_status_text := Some ''success''\<rparr>"
    and s2: "s2 = save_payment p1 (s\<lparr>gateway_calls := gateway_calls s @ [Verify_call tx]\<rparr>)"
    and s3: "s3 = (if booking_status b \<noteq> Booking_CONFIRMED
                   then save_booking (b\<lparr>booking_status := Booking_CONFIRMED\<rparr>) s2 else s2)"
  shows "get_object_or_404 s3 tx = Inr p1"
    and "payment_booking s3 p1 = Inr (b\<lparr>booking_status := Booking_CONFIRMED\<rparr>)"
    and "db_ok s3"
    and "jobs s3 = jobs s"
    and "gateway_calls s3 = gateway_calls s @ [Verify_call tx]"
proof -
  let ?s1 = "s\<lparr>gateway_calls := gateway_calls s @ [Verify_call tx]\<rparr>"
  have ok1: "db_ok ?s1" using ok db_ok_cong[of ?s1 s] by simp
  have g1: "get_object_or_404 ?s1 tx = Inr p" using g get_object_or_404_cong[of ?s1 s tx] by simp
  from get_object_or_404_Inr[OF g1] have m: "p \<in> set (payments ?s1)" by simp
  have e: "payment_id p1 = payment_id p" "chapa_transaction_id p1 = chapa_transaction_id p"
    "booking p1 = booking p" by (simp_all add: p1)
  have g2: "get_object_or_404 s2 tx = Inr p1"
    unfolding s2 by (rule get_after_save[OF ok1 g1 e])
  have ok2: "db_ok s2" unfolding s2 by (rule save_payment_db_ok[OF ok1 m e])
  have b2: "payment_booking s2 p1 = Inr b"
    using b payment_booking_cong[of s2 s p1 p] by (simp add: s2 e)
  from payment_booking_Inr[OF b2] have mb: "b \<in> set (bookings s2)" by simp
  show "get_object_or_404 s3 tx = Inr p1"
    using g2 get_object_or_404_cong[of "save_booking (b\<lparr>booking_status := Booking_CONFIRMED\<rparr>) s2" s2 tx]
    by (simp add: s3)
  show "payment_booking s3 p1 = Inr (b\<lparr>booking_status := Booking_CONFIRMED\<rparr>)"
  proof (cases "booking_status b = Booking_CONFIRMED")
    case True
    then have "b\<lparr>booking_status := Booking_CONFIRMED\<rparr> = b" by simp
    with True b2 show ?thesis by (simp add: s3)
  next
    case False
    have "payment_booking (save_booking (b\<lparr>booking_status := Booking_CONFIRMED\<rparr>) s2) p1 =
          Inr (b\<lparr>booking_status := Booking_CONFIRMED\<rparr>)"
      by (rule payment_booking_after_save[OF b2]) simp
    with False show ?thesis by (simp add: s3)
  qed
  show "db_ok s3"
    using ok2 save_booking_db_ok[OF ok2 mb, of "b\<lparr>booking_status := Booking_CONFIRMED\<rparr>"]
    by (simp add: s3)
  show "jobs s3 = jobs s" by (simp add: s3 s2)
  show "gateway_calls s3 = gateway_calls s @ [Verify_call tx]" by (simp add: s3 s2)
qed

section \<open>Successful verification\<close>

lemma nested_success_iff:
  "nested_success rd = Inr True \<longleftrightarrow>
   (\<exists>kvs dkvs. rd = JObject kvs \<and> map_of kvs ''status'' = Some (JString ''success'') \<and>
      map_of kvs ''data'' = Some (JObject dkvs) \<and>
      map_of dkvs ''status'' = Some (JString ''success''))"
  by (auto simp: nested_success_def py_get_def py_getitem_def
      split: json.splits sum.splits option.splits if_splits)

lemma db0_facts:
  "db_ok db0" "get_object_or_404 db0 ''ref0'' = Inr payment0" "status payment0 = PENDING"
  "payment_booking db0 payment0 = Inr booking0"
  by (simp_all add: db_ok_def db0_def payment0_def booking0_def get_object_or_404_def
      payment_booking_def)

lemma body_success_ok: "nested_success body_success = Inr True"
  by (simp add: nested_success_def body_success_def py_get_def py_getitem_def)



section \<open>Verification on the example database\<close>

lemma lower_completed [simp]: "lower (status_value COMPLETED) = ''completed''"
  by (simp add: lower_def lower_char_def status_value_def)

lemma lower_failed [simp]: "lower (status_value FAILED) = ''failed''"
  by (simp add: lower_def lower_char_def status_value_def)

lemma verify_db0_success:
  "verify_chapa_payment ''ref0'' (Response_JSON body_success) Accepted db0 =
     (HttpResponseRedirect ''/payment-success/'',
      \<lparr>bookings = [booking0\<lparr>booking_status := Booking_CONFIRMED\<rparr>],
       payments = [payment0\<lparr>status := COMPLETED, chapa_status_text := Some ''success''\<rparr>],
       gateway_calls = [Verify_call ''ref0''],
       jobs = [confirmation_job
                 (payment0\<lparr>status := COMPLETED, chapa_status_text := Some ''success''\<rparr>)
                 booking0]\<rparr>)"
proof -
  have st: "status payment0 \<noteq> COMPLETED" "status payment0 \<noteq> FAILED"
    by (simp_all add: payment0_def)
  show ?thesis
    unfolding verify_success_result[OF db0_facts(2) st db0_facts(4) body_success_ok refl refl refl]
    by (simp add: db0_def save_payment_def save_booking_def payment0_def booking0_def)
qed

lemma verify_db0_enqueue_raises:
  "fst (verify_chapa_payment ''ref0'' (Response_JSON body_success) (Enqueue_raises msg) db0) =
     HttpResponseRedirect ''/payment-fail/?tx_ref=ref0&error=internal_error''"
proof -
  have st: "status payment0 \<noteq> COMPLETED" "status payment0 \<noteq> FAILED"
    by (simp_all add: payment0_def)
  show ?thesis
    unfolding verify_success_result[OF db0_facts(2) st db0_facts(4) body_success_ok refl refl refl]
    by simp
qed

lemma verify_success_after:
  assumes "db_ok s" and "get_object_or_404 s tx = Inr p"
    and "status p \<noteq> COMPLETED" "status p \<noteq> FAILED"
    and "nested_success rd = Inr True" and "payment_booking s p = Inr b"
    and "s1 = snd (verify_chapa_payment tx (Response_JSON rd) enq s)"
  shows "get_object_or_404 s1 tx =
           Inr (p\<lparr>status := COMPLETED, chapa_status_text := Some ''success''\<rparr>)"
    and "payment_booking s1 p = Inr (b\<lparr>booking_status := Booking_CONFIRMED\<rparr>)"
    and "gateway_calls s1 = gateway_calls s @ [Verify_call tx]"
    and "jobs s1 = (case enq of Accepted \<Rightarrow> jobs s @ [confirmation_job p b]
                               | Enqueue_raises msg \<Rightarrow> jobs s)"
    and "db_ok s1"
proof -
  define p1 where "p1 = p\<lparr>status := COMPLETED, chapa_status_text := Some ''success''\<rparr>"
  define s2 where "s2 = save_payment p1 (s\<lparr>gateway_calls := gateway_calls s @ [Verify_call tx]\<rparr>)"
  define s3 where "s3 = (if booking_status b \<noteq> Booking_CONFIRMED
                   then save_booking (b\<lparr>booking_status := Booking_CONFIRMED\<rparr>) s2 else s2)"
  note r = verify_success_result[OF assms(2,3,4,6,5) p1_def s2_def s3_def, of enq]
  note f = verify_success_state[OF assms(1,2,6) p1_def s2_def s3_def]
  have cj: "confirmation_job p1 b = confirmation_job p b"
    by (simp add: confirmation_job_def p1_def)
  have e: "s1 = (case enq of Accepted \<Rightarrow> s3\<lparr>jobs := jobs s3 @ [confirmation_job p b]\<rparr>
                           | Enqueue_raises msg \<Rightarrow> s3)"
    unfolding assms(7) r cj by (cases enq) simp_all
  have pay: "payments s1 = payments s3" and bk: "bookings s1 = bookings s3"
    unfolding e by (cases enq; simp)+
  show "get_object_or_404 s1 tx =
           Inr (p\<lparr>status := COMPLETED, chapa_status_text := Some ''success''\<rparr>)"
    using f(1) get_object_or_404_cong[OF pay, of tx] by (simp add: p1_def)
  show "payment_booking s1 p = Inr (b\<lparr>booking_status := Booking_CONFIRMED\<rparr>)"
    using f(2) payment_booking_cong[OF bk, of p p1] by (simp add: p1_def)
  show "gateway_calls s1 = gateway_calls s @ [Verify_call tx]"
    unfolding e using f(5) by (cases enq) simp_all
  show "jobs s1 = (case enq of Accepted \<Rightarrow> jobs s @ [confirmation_job p b]
                               | Enqueue_raises msg \<Rightarrow> jobs s)"
    unfolding e using f(4) by (cases enq) simp_all
  show "db_ok s1" using f(3) db_ok_cong[OF pay bk] by simp
qed

lemma verify_success_response:
  assumes "get_object_or_404 s tx = Inr p"
    and "status p \<noteq> COMPLETED" "status p \<noteq> FAILED"
    and "nested_success rd = Inr True" and "payment_booking s p = Inr b"
  shows "fst (verify_chapa_payment tx (Response_JSON rd) enq s) =
     (case enq of
        Accepted \<Rightarrow> HttpResponseRedirect ''/payment-success/''
      | Enqueue_raises msg \<Rightarrow>
          HttpResponseRedirect (''/payment-fail/?tx_ref='' @ tx @ ''&error=internal_error''))"
  unfolding verify_success_result[OF assms(1,2,3,5,4) refl refl refl]
  by (cases enq) simp_all

section \<open>A failing enqueue\<close>

text \<open>
  C9 as stated: the caller receives the same successful answer whether the
  enqueue of the confirmation job succeeds or fails. On the example database the
  two answers differ: \<^verbatim>\<open>.delay\<close> is called inside the \<^verbatim>\<open>try\<close> block, so its
  exception reaches \<^verbatim>\<open>except Exception\<close>, which redirects to the failure page.
\<close>

theorem enqueue_failure_changes_response:
  "fst (verify_chapa_payment ''ref0'' (Response_JSON body_success)
          (Enqueue_raises ''broker unreachable'') db0) \<noteq>
   fst (verify_chapa_payment ''ref0'' (Response_JSON body_success) Accepted db0)"
  by (simp add: verify_db0_enqueue_raises verify_db0_success)

text \<open>
  C9 as amended: when the enqueue fails after the payment has been stored as
  COMPLETED and the booking as CONFIRMED, the stored payments and bookings are the
  same as when it succeeds (the payment stays COMPLETED, the booking CONFIRMED,
  no job is queued), but the caller is redirected to the failure page with
  \<open>error=internal_error\<close> instead of the success page.
\<close>

theorem enqueue_failure_keeps_state:
  assumes "db_ok s" and "get_object_or_404 s tx = Inr p" and "status p = PENDING"
    and "nested_success rd = Inr True" and "payment_booking s p = Inr b"
  shows "payments (snd (verify_chapa_payment tx (Response_JSON rd) (Enqueue_raises msg) s)) =
           payments (snd (verify_chapa_payment tx (Response_JSON rd) Accepted s)) \<and>
         bookings (snd (verify_chapa_payment tx (Response_JSON rd) (Enqueue_raises msg) s)) =
           bookings (snd (verify_chapa_payment tx (Response_JSON rd) Accepted s)) \<and>
         get_object_or_404
             (snd (verify_chapa_payment tx (Response_JSON rd) (Enqueue_raises msg) s)) tx =
           Inr (p\<lparr>status := COMPLETED, chapa_status_text := Some ''success''\<rparr>) \<and>
         payment_booking
             (snd (verify_chapa_payment tx (Response_JSON rd) (Enqueue_raises msg) s)) p =
           Inr (b\<lparr>booking_status := Booking_CONFIRMED\<rparr>) \<and>
         jobs (snd (verify_chapa_payment tx (Response_JSON rd) (Enqueue_raises msg) s)) = jobs s \<and>
         fst (verify_chapa_payment tx (Response_JSON rd) (Enqueue_raises msg) s) =
           HttpResponseRedirect (''/payment-fail/?tx_ref='' @ tx @ ''&error=internal_error'') \<and>
         fst (verify_chapa_payment tx (Response_JSON rd) Accepted s) =
           HttpResponseRedirect ''/payment-success/''"
proof -
  have st: "status p \<noteq> COMPLETED" "status p \<noteq> FAILED" using assms(3) by simp_all
  note r = verify_success_result[OF assms(2) st assms(5,4) refl refl refl]
  note a = verify_success_after[OF assms(1,2) st assms(4,5) refl, of "Enqueue_raises msg"]
  note f = verify_success_response[OF assms(2) st assms(4,5)]
  have 1: "payments (snd (verify_chapa_payment tx (Response_JSON rd) (Enqueue_raises msg) s)) =
           payments (snd (verify_chapa_payment tx (Response_JSON rd) Accepted s))"
    unfolding r by simp
  have 2: "bookings (snd (verify_chapa_payment tx (Response_JSON rd) (Enqueue_raises msg) s)) =
           bookings (snd (verify_chapa_payment tx (Response_JSON rd) Accepted s))"
    unfolding r by simp
  have 5: "jobs (snd (verify_chapa_payment tx (Response_JSON rd) (Enqueue_raises msg) s)) = jobs s"
    using a(4) by simp
  show ?thesis
    using 1 2 a(1) a(2) 5 f[of "Enqueue_raises msg"] f[of Accepted]
    by (simp only: enqueue_outcome.case simp_thms)
qed

theorem enqueue_failure_keeps_state_witness:
  "db_ok db0 \<and> get_object_or_404 db0 ''ref0'' = Inr payment0 \<and> status payment0 = PENDING \<and>
   nested_success body_success = Inr True \<and> payment_booking db0 payment0 = Inr booking0 \<and>
   payments (snd (verify_chapa_payment ''ref0'' (Response_JSON body_success)
                    (Enqueue_raises ''broker unreachable'') db0)) =
     payments (snd (verify_chapa_payment ''ref0'' (Response_JSON body_success) Accepted db0)) \<and>
   bookings (snd (verify_chapa_payment ''ref0'' (Response_JSON body_success)
                    (Enqueue_raises ''broker unreachable'') db0)) =
     bookings (snd (verify_chapa_payment ''ref0'' (Response_JSON body_success) Accepted db0)) \<and>
   jobs (snd (verify_chapa_payment ''ref0'' (Response_JSON body_success)
                (Enqueue_raises ''broker unreachable'') db0)) = jobs db0 \<and>
   fst (verify_chapa_payment ''ref0'' (Response_JSON body_success)
          (Enqueue_raises ''broker unreachable'') db0) =
     HttpResponseRedirect ''/payment-fail/?tx_ref=ref0&error=internal_error''"
  using enqueue_failure_keeps_state[OF db0_facts(1,2,3) body_success_ok db0_facts(4),
      of "''broker unreachable''"] db0_facts body_success_ok
  by simp

section \<open>Verifying twice\<close>

text \<open>
  C2 as stated: the second of two verifications in immediate succession gives
  an answer identical to the first. On the example database the first call
  redirects to the success page and the second to the status page.
\<close>

theorem second_verification_response_differs:
  "fst (verify_chapa_payment ''ref0'' (Response_JSON body_success) Accepted
          (snd (verify_chapa_payment ''ref0'' (Response_JSON body_success) Accepted db0))) \<noteq>
   fst (verify_chapa_payment ''ref0'' (Response_JSON body_success) Accepted db0)"
proof -
  have "get_object_or_404
          (snd (verify_chapa_payment ''ref0'' (Response_JSON body_success) Accepted db0)) ''ref0'' =
        Inr (payment0\<lparr>status := COMPLETED, chapa_status_text := Some ''success''\<rparr>)"
    by (simp add: verify_db0_success get_object_or_404_def payment0_def)
  from verify_terminal[OF this] show ?thesis
    by (simp add: verify_db0_success)
qed

text \<open>
  C2 as amended: when the first of two verifications in immediate succession
  takes a PENDING payment to COMPLETED, the second one changes nothing: the
  stored status stays COMPLETED, no second call of the gateway is made and no
  second job is queued, so the job is queued at most once over both calls and
  exactly once when the broker accepted it in the first call. The second answer
  is the redirect to the status page with \<open>status=completed\<close>, not the first
  call's redirect to the success page.
\<close>

theorem second_verification_is_absorbed:
  assumes "db_ok s" and "get_object_or_404 s tx = Inr p" and "status p = PENDING"
    and "nested_success rd = Inr True" and "payment_booking s p = Inr b"
    and "s1 = snd (verify_chapa_payment tx (Response_JSON rd) enq s)"
  shows "verify_chapa_payment tx gw2 enq2 s1 =
           (HttpResponseRedirect (''/payment-status/?tx_ref='' @ tx @ ''&status=completed''), s1) \<and>
         get_object_or_404 s1 tx =
           Inr (p\<lparr>status := COMPLETED, chapa_status_text := Some ''success''\<rparr>) \<and>
         gateway_calls s1 = gateway_calls s @ [Verify_call tx] \<and>
         jobs s1 = (case enq of
                      Accepted \<Rightarrow>
                        jobs s @ [Send_payment_confirmation_email (uuid_str (payment_id p))
                                    (email (user b)) (amount p) (uuid_str (booking_id b))]
                    | Enqueue_raises msg \<Rightarrow> jobs s)"
proof -
  have st: "status p \<noteq> COMPLETED" "status p \<noteq> FAILED" using assms(3) by simp_all
  note a = verify_success_after[OF assms(1,2) st assms(4,5,6)]
  have t: "status (p\<lparr>status := COMPLETED, chapa_status_text := Some ''success''\<rparr>) = COMPLETED \<or>
           status (p\<lparr>status := COMPLETED, chapa_status_text := Some ''success''\<rparr>) = FAILED"
    by simp
  have 1: "verify_chapa_payment tx gw2 enq2 s1 =
           (HttpResponseRedirect (''/payment-status/?tx_ref='' @ tx @ ''&status=completed''), s1)"
    using verify_terminal[OF a(1) t, of gw2 enq2] by simp
  show ?thesis using 1 a(1) a(3) a(4) by (cases enq) (simp_all add: confirmation_job_def)
qed

theorem second_verification_is_absorbed_witness:
  "db_ok db0 \<and> get_object_or_404 db0 ''ref0'' = Inr payment0 \<and> status payment0 = PENDING \<and>
   nested_success body_success = Inr True \<and> payment_booking db0 payment0 = Inr booking0 \<and>
   verify_chapa_payment ''ref0'' (Response_JSON body_success) Accepted
       (snd (verify_chapa_payment ''ref0'' (Response_JSON body_success) Accepted db0)) =
     (HttpResponseRedirect ''/payment-status/?tx_ref=ref0&status=completed'',
      snd (verify_chapa_payment ''ref0'' (Response_JSON body_success) Accepted db0)) \<and>
   gateway_calls (snd (verify_chapa_payment ''ref0'' (Response_JSON body_success) Accepted db0)) =
     gateway_calls db0 @ [Verify_call ''ref0''] \<and>
   jobs (snd (verify_chapa_payment ''ref0'' (Response_JSON body_success) Accepted db0)) =
     jobs db0 @ [Send_payment_confirmation_email (uuid_str (payment_id payment0))
                   (email (user booking0)) (amount payment0) (uuid_str (booking_id booking0))]"
  using second_verification_is_absorbed[OF db0_facts(1,2,3) body_success_ok db0_facts(4) refl,
      of "Response_JSON body_success" Accepted Accepted] db0_facts body_success_ok
  by simp

section \<open>Rejections and failures during verification\<close>

lemma failure_text_object:
  assumes "rd = JObject kvs" "map_of kvs ''data'' = Some (JObject dkvs)"
  shows "failure_text rd =
     Inr (case map_of dkvs ''message'' of
            Some m \<Rightarrow> m
          | None \<Rightarrow> (case map_of kvs ''message'' of
                       Some m \<Rightarrow> m
                     | None \<Rightarrow> JString ''Payment verification failed.''))"
  using assms by (simp add: failure_text_def py_getitem_def py_get_default_def)

lemma failure_text_Inr:
  "failure_text rd = Inr text \<Longrightarrow>
   \<exists>kvs dkvs. rd = JObject kvs \<and> map_of kvs ''data'' = Some (JObject dkvs)"
  by (auto simp: failure_text_def py_getitem_def py_get_default_def
      split: json.splits sum.splits option.splits)

lemma failure_text_Inl:
  "failure_text rd = Inl e \<Longrightarrow>
   exn_class e = KeyError \<or> exn_class e = TypeError \<or> exn_class e = AttributeError"
  by (auto simp: failure_text_def py_getitem_def py_get_default_def no_attribute_get_def
      split: json.splits sum.splits option.splits)

lemma nested_success_Inl:
  "nested_success rd = Inl e \<Longrightarrow>
   exn_class e = KeyError \<or> exn_class e = TypeError \<or> exn_class e = AttributeError"
  by (auto simp: nested_success_def py_getitem_def py_get_def no_attribute_get_def
      split: json.splits sum.splits option.splits if_splits)

lemma fail_if_pending_other [simp]:
  "bookings (fail_if_pending l t s) = bookings s"
  "jobs (fail_if_pending l t s) = jobs s"
  "gateway_calls (fail_if_pending l t s) = gateway_calls s"
  by (simp_all add: fail_if_pending_def split: option.splits)

lemma fail_if_pending_not_pending:
  "status p \<noteq> PENDING \<Longrightarrow> fail_if_pending (Some p) t s = s"
  by (simp add: fail_if_pending_def)

lemma fail_if_pending_pending:
  "status p = PENDING \<Longrightarrow>
   fail_if_pending (Some p) t s = save_payment (p\<lparr>status := FAILED, chapa_status_text := Some t\<rparr>) s"
  by (simp add: fail_if_pending_def)

lemma verify_failure_result:
  assumes "get_object_or_404 s tx = Inr p" "status p \<noteq> COMPLETED" "status p \<noteq> FAILED"
    and "nested_success rd = Inr False" "failure_text rd = Inr text"
  shows "verify_chapa_payment tx (Response_JSON rd) enq s =
     (HttpResponseRedirect (''/payment-fail/?tx_ref='' @ tx @ ''&status='' @ py_str text),
      save_payment (p\<lparr>status := FAILED, chapa_status_text := charfield text\<rparr>)
        (s\<lparr>gateway_calls := gateway_calls s @ [Verify_call tx]\<rparr>))"
  by (simp add: verify_chapa_payment_def verify_try_open[OF assms(1,2,3)] assms(4,5)
      verify_failure_def Let_def)

lemma verify_failure_crash:
  assumes "get_object_or_404 s tx = Inr p" "status p \<noteq> COMPLETED" "status p \<noteq> FAILED"
    and "nested_success rd = Inr False" "failure_text rd = Inl e"
  shows "verify_chapa_payment tx (Response_JSON rd) enq s =
     (HttpResponseRedirect (''/payment-fail/?tx_ref='' @ tx @ ''&error=internal_error''),
      s\<lparr>gateway_calls := gateway_calls s @ [Verify_call tx]\<rparr>)"
proof -
  from failure_text_Inl[OF assms(5)]
  have c: "\<not> is_Payment_DoesNotExist e" "\<not> is_RequestException e"
    by (auto simp: is_Payment_DoesNotExist_def is_RequestException_def)
  show ?thesis
    by (simp add: verify_chapa_payment_def verify_try_open[OF assms(1,2,3)] assms(4,5)
        verify_failure_def c fail_if_pending_def)
qed

lemma verify_nested_crash:
  assumes "get_object_or_404 s tx = Inr p" "status p \<noteq> COMPLETED" "status p \<noteq> FAILED"
    and "nested_success rd = Inl e"
  shows "verify_chapa_payment tx (Response_JSON rd) enq s =
     (HttpResponseRedirect (''/payment-fail/?tx_ref='' @ tx @ ''&error=internal_error''),
      fail_if_pending (Some p) (''Internal Error: '' @ exn_str e)
        (s\<lparr>gateway_calls := gateway_calls s @ [Verify_call tx]\<rparr>))"
proof -
  from nested_success_Inl[OF assms(4)]
  have c: "\<not> is_Payment_DoesNotExist e" "\<not> is_RequestException e"
    by (auto simp: is_Payment_DoesNotExist_def is_RequestException_def)
  show ?thesis
    by (simp add: verify_chapa_payment_def verify_try_open[OF assms(1,2,3)] assms(4) c)
qed

lemma verify_transport_failure:
  assumes "get_object_or_404 s tx = Inr p" "status p \<noteq> COMPLETED" "status p \<noteq> FAILED"
  shows "verify_chapa_payment tx (Raises_RequestException msg) enq s =
     (HttpResponseRedirect (''/payment-fail/?tx_ref='' @ tx @ ''&error=api_error''),
      fail_if_pending (Some p) (''API Verification Error: '' @ msg)
        (s\<lparr>gateway_calls := gateway_calls s @ [Verify_call tx]\<rparr>))"
  by (simp add: verify_chapa_payment_def verify_try_open[OF assms]
      is_Payment_DoesNotExist_def is_RequestException_def)

lemma verify_not_json:
  assumes "get_object_or_404 s tx = Inr p" "status p \<noteq> COMPLETED" "status p \<noteq> FAILED"
  shows "verify_chapa_payment tx (Response_not_JSON msg) enq s =
     (HttpResponseRedirect (''/payment-fail/?tx_ref='' @ tx @ ''&error=api_error''),
      fail_if_pending (Some p) (''API Verification Error: '' @ msg)
        (s\<lparr>gateway_calls := gateway_calls s @ [Verify_call tx]\<rparr>))"
  by (simp add: verify_chapa_payment_def verify_try_open[OF assms]
      is_Payment_DoesNotExist_def is_RequestException_def)

lemma get_after_save_with_call:
  assumes "db_ok s" "get_object_or_404 s tx = Inr p" "payment_id p' = payment_id p"
    "chapa_transaction_id p' = chapa_transaction_id p" "booking p' = booking p"
  shows "get_object_or_404 (save_payment p' (s\<lparr>gateway_calls := c\<rparr>)) tx = Inr p'"
    and "db_ok (save_payment p' (s\<lparr>gateway_calls := c\<rparr>))"
proof -
  have ok1: "db_ok (s\<lparr>gateway_calls := c\<rparr>)" using assms(1) db_ok_cong[of "s\<lparr>gateway_calls := c\<rparr>" s] by simp
  have g1: "get_object_or_404 (s\<lparr>gateway_calls := c\<rparr>) tx = Inr p"
    using assms(2) get_object_or_404_cong[of "s\<lparr>gateway_calls := c\<rparr>" s tx] by simp
  show "get_object_or_404 (save_payment p' (s\<lparr>gateway_calls := c\<rparr>)) tx = Inr p'"
    by (rule get_after_save[OF ok1 g1 assms(3,4,5)])
  from get_object_or_404_Inr[OF g1] have m: "p \<in> set (payments (s\<lparr>gateway_calls := c\<rparr>))" by simp
  show "db_ok (save_payment p' (s\<lparr>gateway_calls := c\<rparr>))"
    by (rule save_payment_db_ok[OF ok1 m assms(3,4,5)])
qed

section \<open>A rejection without details\<close>

lemma body_no_data_facts:
  "nested_success body_no_data = Inr False"
  "failure_text body_no_data = Inl (Exn KeyError (quote ''data''))"
  by (simp_all add: nested_success_def failure_text_def body_no_data_def py_get_def
      py_getitem_def)

text \<open>
  When the answer carries a \<^verbatim>\<open>data\<close> object, a verification that does not
  find both statuses equal to success stores the payment as FAILED, with the
  message of \<^verbatim>\<open>data\<close> if there is one, else the message of the answer, else
  the fixed text; the bookings and the queue are left as they were.
\<close>

lemma verify_failure_marks_failed:
  assumes "db_ok s" and "get_object_or_404 s tx = Inr p" and "status p = PENDING"
    and "nested_success rd = Inr False"
    and "rd = JObject kvs" and "map_of kvs ''data'' = Some (JObject dkvs)"
    and "text = (case map_of dkvs ''message'' of
                   Some m \<Rightarrow> m
                 | None \<Rightarrow> (case map_of kvs ''message'' of
                              Some m \<Rightarrow> m
                            | None \<Rightarrow> JString ''Payment verification failed.''))"
  shows "get_object_or_404 (snd (verify_chapa_payment tx (Response_JSON rd) enq s)) tx =
           Inr (p\<lparr>status := FAILED, chapa_status_text := charfield text\<rparr>)"
    and "bookings (snd (verify_chapa_payment tx (Response_JSON rd) enq s)) = bookings s"
    and "jobs (snd (verify_chapa_payment tx (Response_JSON rd) enq s)) = jobs s"
    and "fst (verify_chapa_payment tx (Response_JSON rd) enq s) =
           HttpResponseRedirect (''/payment-fail/?tx_ref='' @ tx @ ''&status='' @ py_str text)"
proof -
  have st: "status p \<noteq> COMPLETED" "status p \<noteq> FAILED" using assms(3) by simp_all
  have ft: "failure_text rd = Inr text"
    unfolding assms(7) by (rule failure_text_object[OF assms(5,6)])
  note r = verify_failure_result[OF assms(2) st assms(4) ft, of enq]
  show "get_object_or_404 (snd (verify_chapa_payment tx (Response_JSON rd) enq s)) tx =
           Inr (p\<lparr>status := FAILED, chapa_status_text := charfield text\<rparr>)"
    unfolding r using get_after_save_with_call(1)[OF assms(1,2)] by simp
  show "bookings (snd (verify_chapa_payment tx (Response_JSON rd) enq s)) = bookings s"
    unfolding r by simp
  show "jobs (snd (verify_chapa_payment tx (Response_JSON rd) enq s)) = jobs s"
    unfolding r by simp
  show "fst (verify_chapa_payment tx (Response_JSON rd) enq s) =
           HttpResponseRedirect (''/payment-fail/?tx_ref='' @ tx @ ''&status='' @ py_str text)"
    unfolding r by simp
qed

text \<open>
  C6. The claim promises FAILED, with the message of the answer when there are
  no nested details, for every answer that does not report success twice. For
  an answer without a \<^verbatim>\<open>data\<close> member and with outer status \<open>failed\<close> the view
  sets \<^verbatim>\<open>payment.status\<close> to FAILED on the local object (line 603), then
  \<^verbatim>\<open>response_data['data']\<close> raises \<^verbatim>\<open>KeyError\<close> (line 605) before \<^verbatim>\<open>save()\<close>;
  the guard of \<^verbatim>\<open>except Exception\<close> reads the local status, which is no longer
  PENDING, and writes nothing. The stored payment stays PENDING and the caller
  is redirected with \<open>error=internal_error\<close>.
\<close>

theorem verify_without_data_leaves_pending:
  "verify_chapa_payment ''ref0'' (Response_JSON body_no_data) enq db0 =
     (HttpResponseRedirect ''/payment-fail/?tx_ref=ref0&error=internal_error'',
      db0\<lparr>gateway_calls := [Verify_call ''ref0'']\<rparr>) \<and>
   stored_status (snd (verify_chapa_payment ''ref0'' (Response_JSON body_no_data) enq db0))
     (payment_id payment0) = Some PENDING"
proof -
  have st: "status payment0 \<noteq> COMPLETED" "status payment0 \<noteq> FAILED"
    by (simp_all add: payment0_def)
  show ?thesis
    unfolding verify_failure_crash[OF db0_facts(2) st body_no_data_facts]
    by (simp add: db0_def stored_status_def payment0_def)
qed

section \<open>Payments stored as CANCELED or REVERSED\<close>






section \<open>Steps that keep the other rows\<close>

lemma db_ok_keys:
  assumes "map payment_keys (payments s') = map payment_keys (payments s)"
    and "map booking_id (bookings s') = map booking_id (bookings s)"
  shows "db_ok s' = db_ok s"
proof -
  have 1: "map payment_id (payments t) = map fst (map payment_keys (payments t))" for t
    by (simp add: payment_keys_def comp_def)
  have 2: "map chapa_transaction_id (payments t) = map (fst \<circ> snd) (map payment_keys (payments t))" for t
    by (simp add: payment_keys_def comp_def)
  have 3: "list_all (\<lambda>p. booking p \<in> X) (payments t) =
           list_all (\<lambda>k. snd (snd k) \<in> X) (map payment_keys (payments t))" for t X
    by (simp add: payment_keys_def list_all_iff)
  show ?thesis
    unfolding db_ok_def 1 2 3 assms ..
qed

lemma same_rows_db_ok: "same_rows pk s s' \<Longrightarrow> db_ok s' = db_ok s"
  by (rule db_ok_keys) (simp_all add: same_rows_def)

lemma same_rows_refl: "same_rows pk s s"
  by (simp add: same_rows_def list_all_iff)

lemma same_rows_trans:
  assumes "same_rows pk s s'" "same_rows pk s' s''"
  shows "same_rows pk s s''"
  using assms by (auto simp: same_rows_def list_all_iff)

lemma same_rows_mem:
  "same_rows pk s s' \<Longrightarrow> p \<in> set (payments s) \<Longrightarrow> payment_id p \<noteq> pk \<Longrightarrow> p \<in> set (payments s')"
  by (simp add: same_rows_def list_all_iff)

lemma same_rows_cong:
  "payments s' = payments s \<Longrightarrow> bookings s' = bookings s \<Longrightarrow> same_rows pk s s'"
  by (simp add: same_rows_def list_all_iff)

lemma same_rows_save_payment:
  assumes "distinct (map payment_id (payments s))"
    and "payment_keys q' \<in> set (map payment_keys (payments s))"
  shows "same_rows (payment_id q') s (save_payment q' s)"
proof -
  let ?f = "\<lambda>q. if payment_id q = payment_id q' then q' else q"
  from assms(2) obtain q where q: "q \<in> set (payments s)" and k: "payment_keys q = payment_keys q'"
    by auto
  from k have pk: "payment_id q' = payment_id q" by (simp add: payment_keys_def)
  have pay: "payments (save_payment q' s) = map ?f (payments s)"
    by (rule save_payment_payments[OF q pk])
  have same: "\<And>x. x \<in> set (payments s) \<Longrightarrow> payment_id x = payment_id q' \<Longrightarrow> x = q"
    using assms(1) q pk by (auto simp: distinct_map dest: inj_onD)
  have 1: "map payment_keys (map ?f (payments s)) = map payment_keys (payments s)"
  proof (rule map_same)
    fix x assume x: "x \<in> set (payments s)"
    show "payment_keys (?f x) = payment_keys x"
    proof (cases "payment_id x = payment_id q'")
      case True
      with same[OF x] k show ?thesis by simp
    next
      case False
      then show ?thesis by simp
    qed
  qed
  have 3: "list_all (\<lambda>p. payment_id p \<noteq> payment_id q' \<longrightarrow> p \<in> set (map ?f (payments s))) (payments s)"
    unfolding list_all_iff
  proof (intro ballI impI)
    fix p assume p: "p \<in> set (payments s)" and n: "payment_id p \<noteq> payment_id q'"
    have "?f p \<in> ?f ` set (payments s)" using p by (rule imageI)
    with n show "p \<in> set (map ?f (payments s))" by simp
  qed
  show ?thesis
    unfolding same_rows_def pay using 1 3 by simp
qed

lemma same_rows_save_booking:
  assumes "b \<in> set (bookings s)" "booking_id b' = booking_id b"
  shows "same_rows pk s (save_booking b' s)"
  unfolding same_rows_def using save_booking_ids[OF assms] by (simp add: list_all_iff)

lemma payment_keys_mem:
  "q \<in> set (payments s) \<Longrightarrow> payment_keys q' = payment_keys q \<Longrightarrow>
   payment_keys q' \<in> set (map payment_keys (payments s))"
  by (metis image_eqI set_map)

lemma same_rows_fail_if_pending:
  assumes "distinct (map payment_id (payments s))" "q \<in> set (payments s)"
    "payment_keys l = payment_keys q"
  shows "same_rows (payment_id q) s (fail_if_pending (Some l) t s)"
proof (cases "status l = PENDING")
  case True
  have k: "payment_keys (l\<lparr>status := FAILED, chapa_status_text := Some t\<rparr>) = payment_keys q"
    using assms(3) by (simp add: payment_keys_def)
  have pk: "payment_id q = payment_id (l\<lparr>status := FAILED, chapa_status_text := Some t\<rparr>)"
    using assms(3) by (simp add: payment_keys_def)
  show ?thesis
    unfolding fail_if_pending_pending[OF True] pk
    by (rule same_rows_save_payment[OF assms(1) payment_keys_mem[OF assms(2) k]])
next
  case False
  then show ?thesis by (simp add: fail_if_pending_not_pending same_rows_refl)
qed

lemma verify_same_rows:
  assumes ok: "db_ok s" and g: "get_object_or_404 s tx = Inr q"
  shows "same_rows (payment_id q) s (snd (verify_chapa_payment tx gw enq s))"
proof (cases "status q = COMPLETED \<or> status q = FAILED")
  case True
  show ?thesis by (simp add: verify_terminal[OF g True] same_rows_refl)
next
  case False
  then have st: "status q \<noteq> COMPLETED" "status q \<noteq> FAILED" by simp_all
  let ?s1 = "s\<lparr>gateway_calls := gateway_calls s @ [Verify_call tx]\<rparr>"
  have r1: "same_rows (payment_id q) s ?s1" by (rule same_rows_cong) simp_all
  have d1: "distinct (map payment_id (payments ?s1))" using ok by (simp add: db_ok_def)
  from get_object_or_404_Inr[OF g] have m1: "q \<in> set (payments ?s1)" by simp
  have fp: "same_rows (payment_id q) s (fail_if_pending (Some q) t ?s1)" for t
    by (rule same_rows_trans[OF r1 same_rows_fail_if_pending[OF d1 m1 refl]])
  have sv: "same_rows (payment_id q) s (save_payment q' ?s1)"
    if "payment_keys q' = payment_keys q" for q'
  proof -
    from that have pk: "payment_id q = payment_id q'" by (simp add: payment_keys_def)
    show ?thesis
      unfolding pk
      by (rule same_rows_trans[OF r1[unfolded pk]
            same_rows_save_payment[OF d1 payment_keys_mem[OF m1 that]]])
  qed
  show ?thesis
  proof (cases gw)
    case (Raises_RequestException msg)
    then show ?thesis by (simp add: verify_transport_failure[OF g st] fp)
  next
    case (Response_not_JSON msg)
    then show ?thesis by (simp add: verify_not_json[OF g st] fp)
  next
    case (Response_JSON rd)
    show ?thesis
    proof (cases "nested_success rd")
      case (Inl e)
      then show ?thesis
        unfolding Response_JSON by (simp add: verify_nested_crash[OF g st] fp)
    next
      case (Inr okk)
      show ?thesis
      proof (cases okk)
        case True
        with Inr have n: "nested_success rd = Inr True" by simp
        from get_object_or_404_Inr[OF g] have "q \<in> set (payments s)" by simp
        from payment_booking_found[OF ok this]
        obtain b where b: "payment_booking s q = Inr b" by blast
        define p1 where "p1 = q\<lparr>status := COMPLETED, chapa_status_text := Some ''success''\<rparr>"
        define s2 where "s2 = save_payment p1 ?s1"
        define s3 where "s3 = (if booking_status b \<noteq> Booking_CONFIRMED
                   then save_booking (b\<lparr>booking_status := Booking_CONFIRMED\<rparr>) s2 else s2)"
        note r = verify_success_result[OF g st b n p1_def s2_def s3_def, of enq]
        have k: "payment_keys p1 = payment_keys q" by (simp add: p1_def payment_keys_def)
        have r2: "same_rows (payment_id q) s s2" unfolding s2_def by (rule sv[OF k])
        from payment_booking_Inr[OF b] have mb: "b \<in> set (bookings s2)" by (simp add: s2_def)
        have r3: "same_rows (payment_id q) s2 s3"
          unfolding s3_def
          using same_rows_save_booking[OF mb, of "b\<lparr>booking_status := Booking_CONFIRMED\<rparr>" "payment_id q"]
          by (simp add: same_rows_refl)
        have r4: "same_rows (payment_id q) s3 (snd (verify_chapa_payment tx (Response_JSON rd) enq s))"
          unfolding r by (cases enq) (simp_all add: same_rows_cong same_rows_refl)
        show ?thesis
          unfolding Response_JSON
          by (rule same_rows_trans[OF same_rows_trans[OF r2 r3] r4])
      next
        case False
        with Inr have n: "nested_success rd = Inr False" by simp
        show ?thesis
        proof (cases "failure_text rd")
          case (Inl e)
          show ?thesis
            unfolding Response_JSON by (simp add: verify_failure_crash[OF g st n Inl] r1)
        next
          case (Inr t)
          have k: "payment_keys (q\<lparr>status := FAILED, chapa_status_text := charfield t\<rparr>) = payment_keys q"
            by (simp add: payment_keys_def)
          show ?thesis
            unfolding Response_JSON by (simp add: verify_failure_result[OF g st n Inr] sv[OF k])
        qed
      qed
    qed
  qed
qed

lemma payment_id_differ:
  assumes "db_ok s" "p \<in> set (payments s)" "q \<in> set (payments s)" "p \<noteq> q"
  shows "payment_id p \<noteq> payment_id q"
proof -
  from assms(1) have "inj_on payment_id (set (payments s))" by (simp add: db_ok_def distinct_map)
  from inj_onD[OF this _ assms(2,3)] assms(4) show ?thesis by blast
qed

lemma verify_keeps_terminal:
  assumes ok: "db_ok s"
  shows "db_ok (snd (verify_chapa_payment tx gw enq s))"
    and "p \<in> set (payments s) \<Longrightarrow> status p = COMPLETED \<or> status p = FAILED \<Longrightarrow>
         p \<in> set (payments (snd (verify_chapa_payment tx gw enq s)))"
proof -
  show "db_ok (snd (verify_chapa_payment tx gw enq s))"
  proof (cases "get_object_or_404 s tx")
    case (Inl e)
    then show ?thesis using ok by (simp add: verify_not_found)
  next
    case (Inr q)
    from same_rows_db_ok[OF verify_same_rows[OF ok Inr]] ok show ?thesis by simp
  qed
  assume p: "p \<in> set (payments s)" and t: "status p = COMPLETED \<or> status p = FAILED"
  show "p \<in> set (payments (snd (verify_chapa_payment tx gw enq s)))"
  proof (cases "get_object_or_404 s tx")
    case (Inl e)
    then show ?thesis using p by (simp add: verify_not_found)
  next
    case (Inr q)
    show ?thesis
    proof (cases "p = q")
      case True
      with t Inr show ?thesis using p by (simp add: verify_terminal)
    next
      case False
      from get_object_or_404_Inr[OF Inr] have "q \<in> set (payments s)" by simp
      from payment_id_differ[OF ok p this False]
      show ?thesis by (rule same_rows_mem[OF verify_same_rows[OF ok Inr] p])
    qed
  qed
qed

section \<open>The insert of initiate_chapa_payment\<close>

lemma py_float_inj [simp]: "py_float a = py_float b \<longleftrightarrow> a = b"
  by (simp add: py_float_def)

lemma Booking_objects_get_Inr:
  assumes "Booking_objects_get s bid u = Inr b"
  shows "b \<in> set (bookings s) \<and> booking_id b = bid \<and> user_id (user b) = user_id u"
proof -
  from assms
  have "filter (\<lambda>b. booking_id b = bid \<and> user_id (user b) = user_id u) (bookings s) = [b]"
    by (auto simp: Booking_objects_get_def split: list.splits)
  then have "b \<in> set (filter (\<lambda>b. booking_id b = bid \<and> user_id (user b) = user_id u) (bookings s))"
    by simp
  then show ?thesis by simp
qed

lemma initiate_create_Inr:
  assumes "initiate_create req u uuid4_tx uuid4_pk s = Inr (b, atext, ref, payment, s1)"
  shows "\<exists>bid. request_body req = Body_dict (Value bid) (Value (atext, total_price b)) \<and>
               Booking_objects_get s bid u = Inr b"
    and "ref = make_tx_ref b uuid4_tx"
    and "payment = \<lparr>payment_id = uuid4_pk, booking = booking_id b, amount = total_price b,
                    chapa_transaction_id = Some ref, status = PENDING,
                    chapa_status_text = Some ''Initiation pending'', payment_method = CHAPA\<rparr>"
    and "uuid4_pk \<notin> set (map payment_id (payments s))"
    and "Some ref \<notin> set (map chapa_transaction_id (payments s))"
    and "s1 = s\<lparr>payments := payments s @ [payment]\<rparr>"
  using assms
  by (auto simp: initiate_create_def Payment_objects_create_def Let_def
      split: request_body.splits field.splits sum.splits if_splits prod.splits)

lemma create_db_ok:
  assumes "db_ok s" "payment_id p \<notin> set (map payment_id (payments s))"
    "chapa_transaction_id p = Some ref" "Some ref \<notin> set (map chapa_transaction_id (payments s))"
    "booking p \<in> set (map booking_id (bookings s))"
  shows "db_ok (s\<lparr>payments := payments s @ [p]\<rparr>)"
  using assms by (simp add: db_ok_def)

lemma same_rows_save_after_call:
  assumes "distinct (map payment_id (payments s1))" "payment \<in> set (payments s1)"
    "payment_keys q' = payment_keys payment"
  shows "same_rows (payment_id payment) s1 (save_payment q' (s1\<lparr>gateway_calls := c\<rparr>))"
proof -
  from assms(3) have pk: "payment_id payment = payment_id q'" by (simp add: payment_keys_def)
  have r1: "same_rows (payment_id q') s1 (s1\<lparr>gateway_calls := c\<rparr>)"
    by (rule same_rows_cong) simp_all
  have d: "distinct (map payment_id (payments (s1\<lparr>gateway_calls := c\<rparr>)))" using assms(1) by simp
  have m: "payment \<in> set (payments (s1\<lparr>gateway_calls := c\<rparr>))" using assms(2) by simp
  show ?thesis
    unfolding pk
    by (rule same_rows_trans[OF r1 same_rows_save_payment[OF d payment_keys_mem[OF m assms(3)]]])
qed

lemma initiate_gateway_frame:
  assumes "distinct (map payment_id (payments s1))" "payment \<in> set (payments s1)"
    and "initiate_gateway req gw b atext ref payment s1 = (out, l, s')"
  shows "same_rows (payment_id payment) s1 s'"
    and "\<exists>l'. l = Some l' \<and> payment_keys l' = payment_keys payment"
proof -
  have k1: "payment_keys (payment\<lparr>chapa_status_text := x\<rparr>) = payment_keys payment" for x
    by (simp add: payment_keys_def)
  have k2: "payment_keys (payment\<lparr>status := FAILED, chapa_status_text := x\<rparr>) = payment_keys payment" for x
    by (simp add: payment_keys_def)
  have k3: "payment_keys (payment\<lparr>status := FAILED\<rparr>) = payment_keys payment"
    by (simp add: payment_keys_def)
  note sv = same_rows_save_after_call[OF assms(1,2)]
  have c: "same_rows (payment_id payment) s1 (s1\<lparr>gateway_calls := x\<rparr>)" for x
    by (rule same_rows_cong) simp_all
  show "same_rows (payment_id payment) s1 s'"
    using assms(3) sv[OF k1] sv[OF k2] c
    by (auto simp: initiate_gateway_def Let_def
        split: gateway_outcome.splits sum.splits if_splits)
  show "\<exists>l'. l = Some l' \<and> payment_keys l' = payment_keys payment"
    using assms(3) k1 k2 k3
    by (auto simp: initiate_gateway_def Let_def
        split: gateway_outcome.splits sum.splits if_splits)
qed

section \<open>What initiate_chapa_payment leaves in place\<close>

lemma fail_if_pending_None [simp]: "fail_if_pending None t s = s"
  by (simp add: fail_if_pending_def)

lemma initiate_not_post:
  "request_method req \<noteq> ''POST'' \<Longrightarrow> snd (initiate_chapa_payment req tx pk gw s) = s"
  by (simp add: initiate_chapa_payment_def)

lemma initiate_anonymous:
  "request_user req = None \<Longrightarrow> snd (initiate_chapa_payment req tx pk gw s) = s"
  by (simp add: initiate_chapa_payment_def)

lemma initiate_create_fails:
  "request_user req = Some u \<Longrightarrow> initiate_create req u tx pk s = Inl out \<Longrightarrow>
   snd (initiate_chapa_payment req tx pk gw s) = s"
  by (cases out) (simp_all add: initiate_chapa_payment_def initiate_try_def)

lemma initiate_final:
  assumes "request_method req = ''POST''" "request_user req = Some u"
    "initiate_create req u tx pk s = Inr (b, atext, ref, payment, s1)"
    "initiate_gateway req gw b atext ref payment s1 = (out, l, s')"
  shows "snd (initiate_chapa_payment req tx pk gw s) = s' \<or>
         (\<exists>t. snd (initiate_chapa_payment req tx pk gw s) = fail_if_pending l t s')"
  using assms
  by (cases out) (auto simp: initiate_chapa_payment_def initiate_try_def)

lemma initiate_keeps:
  assumes ok: "db_ok s"
  shows "db_ok (snd (initiate_chapa_payment req tx pk gw s))"
    and "set (payments s) \<subseteq> set (payments (snd (initiate_chapa_payment req tx pk gw s)))"
proof -
  let ?s' = "snd (initiate_chapa_payment req tx pk gw s)"
  have "db_ok ?s' \<and> set (payments s) \<subseteq> set (payments ?s')"
  proof (cases "request_method req = ''POST''")
    case False
    with ok show ?thesis by (simp add: initiate_not_post)
  next
    case True
    show ?thesis
    proof (cases "request_user req")
      case None
      with ok show ?thesis by (simp add: initiate_anonymous)
    next
      case (Some u)
      show ?thesis
      proof (cases "initiate_create req u tx pk s")
        case (Inl out)
        with ok Some show ?thesis by (simp add: initiate_create_fails)
      next
        case (Inr x)
        obtain b atext ref payment s1 where x: "x = (b, atext, ref, payment, s1)"
          by (cases x) auto
        note c = initiate_create_Inr[OF Inr[unfolded x]]
        obtain out l s2 where g: "initiate_gateway req gw b atext ref payment s1 = (out, l, s2)"
          by (cases "initiate_gateway req gw b atext ref payment s1") auto
        from c(1) obtain bid where "Booking_objects_get s bid u = Inr b" by blast
        from Booking_objects_get_Inr[OF this] have mb: "booking_id b \<in> set (map booking_id (bookings s))"
          by auto
        have pid: "payment_id payment = pk" and ptx: "chapa_transaction_id payment = Some ref"
          and pb: "booking payment = booking_id b"
          by (simp_all add: c(3))
        have ok1: "db_ok s1"
          unfolding c(6) using create_db_ok[OF ok _ ptx c(5)] c(4) mb pid pb by simp
        have d1: "distinct (map payment_id (payments s1))" using ok1 by (simp add: db_ok_def)
        have m1: "payment \<in> set (payments s1)" by (simp add: c(6))
        note f = initiate_gateway_frame[OF d1 m1 g]
        from f(2) obtain l' where l: "l = Some l'" and kl: "payment_keys l' = payment_keys payment"
          by blast
        have d2: "distinct (map payment_id (payments s2))"
          using same_rows_db_ok[OF f(1)] ok1 by (simp add: db_ok_def)
        have "payment_keys payment \<in> set (map payment_keys (payments s2))"
          using f(1) m1 by (simp add: same_rows_def)
        then obtain q where q: "q \<in> set (payments s2)" and kq: "payment_keys q = payment_keys payment"
          by auto
        have pq: "payment_id q = payment_id payment" using kq by (simp add: payment_keys_def)
        have r: "same_rows (payment_id payment) s2 (fail_if_pending l t s2)" for t
          unfolding l using same_rows_fail_if_pending[OF d2 q, of l' t] kl kq pq by simp
        from initiate_final[OF True Some Inr[unfolded x] g]
        have fin: "same_rows (payment_id payment) s1 ?s'"
        proof
          assume "?s' = s2"
          with f(1) show ?thesis by simp
        next
          assume "\<exists>t. ?s' = fail_if_pending l t s2"
          then obtain t where "?s' = fail_if_pending l t s2" by blast
          with same_rows_trans[OF f(1) r[of t]] show ?thesis by simp
        qed
        have 1: "db_ok ?s'" using same_rows_db_ok[OF fin] ok1 by simp
        have 2: "set (payments s) \<subseteq> set (payments ?s')"
        proof
          fix p assume p: "p \<in> set (payments s)"
          then have p1: "p \<in> set (payments s1)" by (simp add: c(6))
          from p c(4) have "payment_id p \<noteq> payment_id payment" unfolding pid by auto
          from same_rows_mem[OF fin p1 this] show "p \<in> set (payments ?s')" .
        qed
        from 1 2 show ?thesis ..
      qed
    qed
  qed
  then show "db_ok ?s'" and "set (payments s) \<subseteq> set (payments ?s')" by simp_all
qed

section \<open>Terminal states\<close>

lemma find_by_key:
  "distinct (map f xs) \<Longrightarrow> x \<in> set xs \<Longrightarrow> find (\<lambda>q. f q = f x) xs = Some x"
proof (induction xs)
  case Nil
  then show ?case by simp
next
  case (Cons a xs)
  show ?case
  proof (cases "a = x")
    case True
    then show ?thesis by simp
  next
    case False
    with Cons.prems have x: "x \<in> set xs" by simp
    from Cons.prems(1) have "f a \<notin> f ` set xs" and d: "distinct (map f xs)" by simp_all
    with x have "f a \<noteq> f x" by blast
    with Cons.IH[OF d x] show ?thesis by simp
  qed
qed

lemma stored_status_mem:
  "db_ok s \<Longrightarrow> p \<in> set (payments s) \<Longrightarrow> stored_status s (payment_id p) = Some (status p)"
  by (simp add: stored_status_def db_ok_def find_by_key)

lemma apply_operation_keeps:
  assumes "db_ok s"
  shows "db_ok (apply_operation x s)"
    and "p \<in> set (payments s) \<Longrightarrow> status p = COMPLETED \<or> status p = FAILED \<Longrightarrow>
         p \<in> set (payments (apply_operation x s))"
proof -
  show "db_ok (apply_operation x s)"
    by (cases x) (simp_all add: verify_keeps_terminal(1)[OF assms] initiate_keeps(1)[OF assms])
  assume p: "p \<in> set (payments s)" and t: "status p = COMPLETED \<or> status p = FAILED"
  show "p \<in> set (payments (apply_operation x s))"
  proof (cases x)
    case (VerifyPayment tx gw enq)
    with verify_keeps_terminal(2)[OF assms p t] show ?thesis by simp
  next
    case (InitiatePayment req u1 u2 gw)
    with initiate_keeps(2)[OF assms, of req u1 u2 gw] p show ?thesis by auto
  qed
qed

lemma run_keeps:
  "db_ok s \<Longrightarrow> p \<in> set (payments s) \<Longrightarrow> status p = COMPLETED \<or> status p = FAILED \<Longrightarrow>
   db_ok (run ops s) \<and> p \<in> set (payments (run ops s))"
proof (induction ops arbitrary: s)
  case Nil
  then show ?case by simp
next
  case (Cons x xs)
  from apply_operation_keeps[OF Cons.prems(1)] Cons.prems(2,3)
  have "db_ok (apply_operation x s)" "p \<in> set (payments (apply_operation x s))" by simp_all
  from Cons.IH[OF this Cons.prems(3)] show ?case by simp
qed

text \<open>
  C1. A payment whose status is COMPLETED or FAILED keeps that status whatever
  verifications and initiations follow: a verification for its own reference
  returns at the guard of line 563 and leaves the whole database as it is, and
  after any sequence of calls of the two views, with any answers of the gateway
  and of the broker, the payment is still stored, unchanged.
\<close>

theorem terminal_status_absorbing:
  assumes "db_ok s" and "p \<in> set (payments s)"
    and "status p = COMPLETED \<or> status p = FAILED"
  shows "(chapa_transaction_id p = Some tx \<longrightarrow> snd (verify_chapa_payment tx gw enq s) = s) \<and>
         stored_status (snd (initiate_chapa_payment req uuid4_tx uuid4_pk gw s)) (payment_id p) =
           Some (status p) \<and>
         stored_status (run ops s) (payment_id p) = Some (status p) \<and>
         p \<in> set (payments (run ops s))"
proof -
  have 1: "snd (verify_chapa_payment tx gw enq s) = s" if "chapa_transaction_id p = Some tx"
    using verify_terminal[OF get_object_or_404_found[OF assms(1,2) that] assms(3)] by simp
  have 2: "stored_status (snd (initiate_chapa_payment req uuid4_tx uuid4_pk gw s)) (payment_id p) =
           Some (status p)"
    using stored_status_mem[OF initiate_keeps(1)[OF assms(1)], of p req uuid4_tx uuid4_pk gw]
      initiate_keeps(2)[OF assms(1), of req uuid4_tx uuid4_pk gw] assms(2)
    by auto
  from run_keeps[OF assms] have 3: "db_ok (run ops s)" and 4: "p \<in> set (payments (run ops s))"
    by simp_all
  from 1 2 stored_status_mem[OF 3 4] 4 show ?thesis by simp
qed

lemma db_completed_facts:
  "db_ok db_completed" "payment_completed \<in> set (payments db_completed)"
  "status payment_completed = COMPLETED" "chapa_transaction_id payment_completed = Some ''ref0''"
  by (simp_all add: db_ok_def db_completed_def payment_completed_def payment0_def booking0_def)

theorem terminal_status_absorbing_witness:
  "db_ok db_completed \<and> payment_completed \<in> set (payments db_completed) \<and>
   (status payment_completed = COMPLETED \<or> status payment_completed = FAILED) \<and>
   chapa_transaction_id payment_completed = Some ''ref0'' \<and>
   snd (verify_chapa_payment ''ref0'' (Response_JSON body_failed) Accepted db_completed) =
     db_completed \<and>
   stored_status (snd (initiate_chapa_payment request0 (UUID ''cccccccccccccccccccccccccccccccc'')
                         (UUID ''dddddddddddddddddddddddddddddddd'')
                         (Response_JSON body_failed) db_completed))
     (payment_id payment_completed) = Some COMPLETED \<and>
   stored_status (run calls0 db_completed) (payment_id payment_completed) = Some COMPLETED"
proof -
  have t: "status payment_completed = COMPLETED \<or> status payment_completed = FAILED"
    using db_completed_facts(3) by simp
  from terminal_status_absorbing[OF db_completed_facts(1,2) t, of "''ref0''"
      "Response_JSON body_failed" Accepted request0 "UUID ''cccccccccccccccccccccccccccccccc''"
      "UUID ''dddddddddddddddddddddddddddddddd''" calls0]
  show ?thesis using db_completed_facts t by simp
qed

section \<open>Amount mismatch\<close>





section \<open>Successful initiation\<close>









section \<open>Rejections and failures during initiation\<close>











end
